theory Spec2Isabelle
  imports Main "HOL-Library.Word"
begin

unbundle bit_operations_syntax

section \<open>Go values used by the packet I/O code\<close>

type_synonym byte = "8 word"
type_synonym uint8 = "8 word"
type_synonym uint16 = "16 word"
type_synonym uint32 = "32 word"
type_synonym int32 = "32 word"

text \<open>
  \<open>uintptr\<close> is 64 bits wide on the 64-bit Windows targets (amd64, arm64). All Windows
  targets of Go are little-endian, so a load or store through an \<open>unsafe.Pointer\<close>
  cast reads or writes the least significant byte first.
\<close>

type_synonym uintptr = "64 word"

text \<open>
  A Go slice is a view into a backing array. \<open>s_arr\<close> holds the cells of the backing
  array from the first element of the slice up to the end of its capacity, \<open>s_len\<close> is
  the length of the slice. The cells beyond \<open>s_len\<close> are not part of the slice, but they
  are what a re-slice up to the capacity, or a load through an unsafe pointer, sees.
\<close>

record 'a slice =
  s_arr :: "'a list"
  s_len :: nat

definition nil_slice :: "'a slice" where
  "nil_slice = \<lparr>s_arr = [], s_len = 0\<rparr>"

definition cap_of :: "'a slice \<Rightarrow> nat" where
  "cap_of s = length (s_arr s)"

definition elems :: "'a slice \<Rightarrow> 'a list" where
  "elems s = take (s_len s) (s_arr s)"

text \<open>
  How a call ends abnormally. The first four are run-time panics of Go, \<open>Explicit\<close> is a
  call of \<open>panic\<close> with its message. \<open>UnsafeLoadBeyondArray\<close> is not a panic: it marks a
  load through an unsafe pointer that leaves the backing array, which Go does not check
  and whose result is undefined.
\<close>

datatype abort =
    IndexOutOfRange
  | SliceBoundsOutOfRange
  | NilPointerDereference
  | TypeAssertionFailed
  | Explicit string
  | UnsafeLoadBeyondArray

datatype 'a exec = Return 'a | Panic abort

text \<open>
  Go errors: \<open>syscall.EINVAL\<close>, an error made by \<open>errors.New\<close>, and any other error of
  the operating system or of the connection underneath, identified by a number.
\<close>

datatype error = EINVAL | ErrorString string | SyscallError nat

text \<open>\<open>make([]byte, n)\<close>: a fresh array of \<open>n\<close> zero bytes.\<close>

definition make_bytes :: "nat \<Rightarrow> byte slice" where
  "make_bytes n = \<lparr>s_arr = replicate n 0, s_len = n\<rparr>"

text \<open>\<open>s[i]\<close>, \<open>s[i:]\<close>, \<open>s[:j]\<close> and \<open>s[i:j]\<close> with Go's bounds checks.\<close>

definition index :: "'a slice \<Rightarrow> nat \<Rightarrow> 'a exec" where
  "index s i = (if i < s_len s then Return (s_arr s ! i) else Panic IndexOutOfRange)"

definition slice_from :: "'a slice \<Rightarrow> nat \<Rightarrow> 'a slice exec" where
  "slice_from s i =
     (if i \<le> s_len s then Return \<lparr>s_arr = drop i (s_arr s), s_len = s_len s - i\<rparr>
      else Panic SliceBoundsOutOfRange)"

definition slice_to :: "'a slice \<Rightarrow> nat \<Rightarrow> 'a slice exec" where
  "slice_to s j =
     (if j \<le> cap_of s then Return \<lparr>s_arr = s_arr s, s_len = j\<rparr>
      else Panic SliceBoundsOutOfRange)"

definition slice_range :: "'a slice \<Rightarrow> nat \<Rightarrow> nat \<Rightarrow> 'a slice exec" where
  "slice_range s i j =
     (if i \<le> j \<and> j \<le> cap_of s then Return \<lparr>s_arr = drop i (s_arr s), s_len = j - i\<rparr>
      else Panic SliceBoundsOutOfRange)"

text \<open>
  \<open>append(b, make([]byte, n)...)\<close>: when the capacity suffices the cells after the
  slice are overwritten in place, otherwise the elements move to a new array. How much
  spare capacity a new array gets is up to the run-time system; here it gets none.
\<close>

definition append_zeros :: "byte slice \<Rightarrow> nat \<Rightarrow> byte slice" where
  "append_zeros b n =
     (if s_len b + n \<le> cap_of b
      then \<lparr>s_arr = elems b @ replicate n 0 @ drop (s_len b + n) (s_arr b), s_len = s_len b + n\<rparr>
      else \<lparr>s_arr = elems b @ replicate n 0, s_len = s_len b + n\<rparr>)"

text \<open>Writing \<open>bs\<close> into the cells of a slice from offset \<open>off\<close> on.\<close>

definition store_bytes :: "byte slice \<Rightarrow> nat \<Rightarrow> byte list \<Rightarrow> byte slice" where
  "store_bytes b off bs =
     b\<lparr>s_arr := take off (s_arr b) @ bs @ drop (off + length bs) (s_arr b)\<rparr>"

subsection \<open>Little-endian loads and stores\<close>

definition bytes_of_uint16 :: "uint16 \<Rightarrow> byte list" where
  "bytes_of_uint16 w = [ucast w, ucast (drop_bit 8 w)]"

definition uint16_of_bytes :: "byte list \<Rightarrow> uint16" where
  "uint16_of_bytes bs = ucast (bs ! 0) OR push_bit 8 (ucast (bs ! 1))"

definition bytes_of_uint32 :: "uint32 \<Rightarrow> byte list" where
  "bytes_of_uint32 w =
     [ucast w, ucast (drop_bit 8 w), ucast (drop_bit 16 w), ucast (drop_bit 24 w)]"

text \<open>\<open>binary.LittleEndian.Uint32(bs)\<close>, for a slice of at least four bytes.\<close>

definition uint32_of_bytes :: "byte list \<Rightarrow> uint32" where
  "uint32_of_bytes bs =
     ucast (bs ! 0) OR push_bit 8 (ucast (bs ! 1)) OR push_bit 16 (ucast (bs ! 2))
       OR push_bit 24 (ucast (bs ! 3))"

section \<open>The control-message codec (sys\_conn\_helper\_windows.go)\<close>

text \<open>Constants of \<open>golang.org/x/sys/windows\<close> and \<open>syscall\<close> that the code names.\<close>

definition IPPROTO_IP :: int32 where "IPPROTO_IP = 0"
definition IPPROTO_IPV6 :: int32 where "IPPROTO_IPV6 = 41"
definition IPPROTO_UDP :: int32 where "IPPROTO_UDP = 17"
definition IP_TOS :: int32 where "IP_TOS = 3"
definition IP_PKTINFO :: int32 where "IP_PKTINFO = 19"
definition IPV6_PKTINFO :: int32 where "IPV6_PKTINFO = 19"
definition UDP_SEND_MSG_SIZE :: int32 where "UDP_SEND_MSG_SIZE = 2"

text \<open>Constants the source declares itself.\<close>

definition ecnMask :: byte where "ecnMask = 3"
definition oobBufferSize :: nat where "oobBufferSize = 128"
definition IPV6_RECVTCLASS :: int32 where "IPV6_RECVTCLASS = 40"
definition batchSize :: nat where "batchSize = 1"

record Cmsghdr =
  Len :: uint32
  Level :: int32
  Type :: int32

text \<open>
  \<open>reflect.TypeOf(cmsghdr).Align()\<close> and \<open>.Size()\<close> for a struct of three 32-bit
  fields, and the alignment of \<open>uint32\<close>.
\<close>

definition cmsgAlign :: uintptr where "cmsgAlign = 4"
definition cmsgSize :: uintptr where "cmsgSize = 12"

definition cmsgDataAlign :: "uintptr \<Rightarrow> uintptr" where
  "cmsgDataAlign l = (l + 4 - 1) AND NOT (4 - 1)"

definition cmsgHdrAlign :: "uintptr \<Rightarrow> uintptr" where
  "cmsgHdrAlign l = (l + cmsgAlign - 1) AND NOT (cmsgAlign - 1)"

definition cmsgLen :: "uintptr \<Rightarrow> uintptr" where
  "cmsgLen l = cmsgDataAlign cmsgSize + l"

definition cmsgSpace :: "uintptr \<Rightarrow> uintptr" where
  "cmsgSpace l = cmsgDataAlign (cmsgSize + cmsgHdrAlign l)"

text \<open>The twelve bytes of a header as they lie in memory.\<close>

definition bytes_of_Cmsghdr :: "Cmsghdr \<Rightarrow> byte list" where
  "bytes_of_Cmsghdr h = bytes_of_uint32 (Len h) @ bytes_of_uint32 (Level h) @ bytes_of_uint32 (Type h)"

definition Cmsghdr_of_bytes :: "byte list \<Rightarrow> Cmsghdr" where
  "Cmsghdr_of_bytes bs =
     \<lparr>Len = uint32_of_bytes (take 4 bs),
      Level = uint32_of_bytes (take 4 (drop 4 bs)),
      Type = uint32_of_bytes (take 4 (drop 8 bs))\<rparr>"

text \<open>
  \<open>appendUDPSegmentSizeMsg\<close>: the header is written through a pointer to
  \<open>b[startLen]\<close>, with \<open>SetLen\<close> truncating the length to 32 bits, and the size through
  a \<open>*uint16\<close> at offset \<open>startLen + cmsgLen(0)\<close>.
\<close>

definition appendUDPSegmentSizeMsg :: "byte slice \<Rightarrow> uint16 \<Rightarrow> byte slice" where
  "appendUDPSegmentSizeMsg b sz =
     (let startLen = s_len b;
          dataLen = 2;
          b1 = append_zeros b (unat (cmsgSpace dataLen));
          h = \<lparr>Len = ucast (cmsgLen dataLen), Level = IPPROTO_UDP, Type = UDP_SEND_MSG_SIZE\<rparr>;
          b2 = store_bytes b1 startLen (bytes_of_Cmsghdr h);
          offset = startLen + unat (cmsgLen 0)
      in store_bytes b2 offset (bytes_of_uint16 sz))"

text \<open>
  \<open>socketControlMessageHeaderAndData\<close>. \<open>&b[0]\<close> is bounds-checked and panics on an
  empty slice. \<open>h.Len\<close> is then loaded through the unsafe pointer: four bytes from the
  first cell of the slice on, whatever the length of the slice; the load reads cells
  beyond \<open>s_len\<close> when the slice is shorter than four bytes, and leaves the backing
  array when that is shorter too. The source has no branch for that last case: the
  compiled code loads whatever lies behind the array and, the slice being shorter than
  a header, goes on to return \<open>EINVAL\<close>. The branch \<open>cap_of b < 4\<close> of the model stands for
  the load out of the array, which a returned value cannot show; it makes the model
  stricter than the code, never more lenient. The returned pointer \<open>h\<close> is given as the
  header it points to, which the caller reads only after the length check has passed.
\<close>

definition socketControlMessageHeaderAndData ::
    "byte slice \<Rightarrow> (error + Cmsghdr \<times> byte slice) exec" where
  "socketControlMessageHeaderAndData b =
     (if s_len b = 0 then Panic IndexOutOfRange
      else if cap_of b < 4 then Panic UnsafeLoadBeyondArray
      else let hLen = uint32_of_bytes (take 4 (s_arr b)) in
        if (ucast hLen :: uintptr) < cmsgSize \<or> s_len b < unat hLen then Return (Inl EINVAL)
        else (case slice_range b (unat (cmsgDataAlign cmsgSize)) (unat hLen) of
                Panic a \<Rightarrow> Panic a
              | Return dbuf \<Rightarrow> Return (Inr (Cmsghdr_of_bytes (take 12 (s_arr b)), dbuf))))"

definition ParseOneSocketControlMessage ::
    "byte slice \<Rightarrow> (error + Cmsghdr \<times> byte slice \<times> byte slice) exec" where
  "ParseOneSocketControlMessage b =
     (case socketControlMessageHeaderAndData b of
        Panic a \<Rightarrow> Panic a
      | Return (Inl err) \<Rightarrow> Return (Inl err)
      | Return (Inr (h, dbuf)) \<Rightarrow>
          (let i = unat (cmsgDataAlign (ucast (Len h)))
           in if i < s_len b
              then (case slice_from b i of
                      Panic a \<Rightarrow> Panic a
                    | Return remainder \<Rightarrow> Return (Inr (h, dbuf, remainder)))
              else Return (Inr (h, dbuf, nil_slice))))"

text \<open>
  \<open>parseIPv4PktInfo\<close>. After the length check \<open>body[:4]\<close> becomes the address, and
  \<open>binary.LittleEndian.Uint32(body)\<close> decodes the first four bytes of \<open>body\<close>.
\<close>

datatype netip_Addr = Addr_zero | Addr4 "byte list" | Addr6 "byte list"

definition AddrFrom4 :: "byte list \<Rightarrow> netip_Addr" where
  "AddrFrom4 bs = Addr4 bs"

definition AddrFrom16 :: "byte list \<Rightarrow> netip_Addr" where
  "AddrFrom16 bs = Addr6 bs"

text \<open>\<open>netip.Addr.Unmap\<close>: an IPv4-mapped IPv6 address becomes the IPv4 address.\<close>

fun Unmap :: "netip_Addr \<Rightarrow> netip_Addr" where
  "Unmap (Addr6 bs) =
     (if take 12 bs = replicate 10 0 @ [255, 255] then Addr4 (drop 12 bs) else Addr6 bs)"
| "Unmap a = a"

definition parseIPv4PktInfo :: "byte slice \<Rightarrow> netip_Addr \<times> uint32 \<times> bool" where
  "parseIPv4PktInfo body =
     (if s_len body \<noteq> 8 then (Addr_zero, 0, False)
      else (AddrFrom4 (take 4 (elems body)), uint32_of_bytes (elems body), True))"

section \<open>The connection and its environment (part\_000)\<close>

subsection \<open>Types of the packages around the source\<close>

text \<open>
  \<open>net.Addr\<close> is an interface: nil, a \<open>*net.UDPAddr\<close> (which may be a nil pointer), or
  a value of another type, given by the name of its network.
\<close>

record UDPAddr =
  IP :: "byte list"
  Port :: nat
  Zone :: string

datatype net_Addr = NoAddr | UDPAddrPtr "UDPAddr option" | OtherAddr string

text \<open>\<open>net.IP.To4\<close>: the four-byte form of an IPv4 address, nil (empty) otherwise.\<close>

definition To4 :: "byte list \<Rightarrow> byte list" where
  "To4 ip =
     (if length ip = 4 then ip
      else if length ip = 16 \<and> take 12 ip = replicate 10 0 @ [255, 255] then drop 12 ip
      else [])"

text \<open>\<open>net.IP.IsUnspecified\<close>: \<open>0.0.0.0\<close> (in either form) or \<open>::\<close>.\<close>

definition IsUnspecified :: "byte list \<Rightarrow> bool" where
  "IsUnspecified ip = (To4 ip = replicate 4 0 \<or> ip = replicate 16 0)"

text \<open>
  Modelled from the spec: \<open>protocol.ECN\<close> and its conversions are in
  \<open>internal/protocol\<close>, which is not among the source files. The spec lists the values
  Not-ECT, ECT(0), ECT(1), CE and Unsupported, decoded from the ECN bits of the IP
  header; the codepoints are those of the IP header (00, 10, 01, 11). A conversion
  of a value outside its table panics.
\<close>

datatype ECN = ECNUnsupported | ECNNon | ECT1 | ECT0 | ECNCE

definition ParseECNHeaderBits :: "byte \<Rightarrow> ECN exec" where
  "ParseECNHeaderBits bits =
     (if bits = 0 then Return ECNNon
      else if bits = 2 then Return ECT0
      else if bits = 1 then Return ECT1
      else if bits = 3 then Return ECNCE
      else Panic (Explicit ''invalid ECN bits''))"

fun ToHeaderBits :: "ECN \<Rightarrow> byte exec" where
  "ToHeaderBits ECNNon = Return 0"
| "ToHeaderBits ECT0 = Return 2"
| "ToHeaderBits ECT1 = Return 1"
| "ToHeaderBits ECNCE = Return 3"
| "ToHeaderBits ECNUnsupported = Panic (Explicit ''ECN unsupported'')"

record packetInfo =
  addr :: netip_Addr
  ifIndex :: uint32

text \<open>
  A \<open>*packetBuffer\<close> is kept as the identity of the buffer (\<open>None\<close> is nil): the bytes
  of its array are those that \<open>Buffers[0]\<close> of the message views.
\<close>

type_synonym packetBuffer_ptr = "nat option"

record receivedPacket =
  remoteAddr :: net_Addr
  rcvTime :: nat
  data :: "byte slice"
  buffer :: packetBuffer_ptr
  ecn :: ECN
  info :: packetInfo

definition zero_receivedPacket :: receivedPacket where
  "zero_receivedPacket =
     \<lparr>remoteAddr = NoAddr, rcvTime = 0, data = nil_slice, buffer = None,
      ecn = ECNUnsupported, info = \<lparr>addr = Addr_zero, ifIndex = 0\<rparr>\<rparr>"

text \<open>\<open>ipv4.Message\<close>, with the fields the code uses.\<close>

record Message =
  Buffers :: "byte slice list"
  OOB :: "byte slice"
  Addr :: net_Addr
  N :: nat
  NN :: nat

record connCapabilities =
  DF :: bool
  GSO :: bool
  ECN :: bool

record oobConn =
  readPos :: uint8
  messages :: "Message slice"
  buffers :: "packetBuffer_ptr list"
  cap :: connCapabilities

subsection \<open>The environment\<close>

text \<open>
  What one datagram of a batched receive brings: the payload and the ancillary data the
  kernel writes to the front of the two buffers of a message (cut to their lengths), the
  sender, and the two byte counts it reports.
\<close>

record rx =
  rx_payload :: "byte list"
  rx_oob :: "byte list"
  rx_addr :: net_Addr
  rx_N :: nat
  rx_NN :: nat

record rb_response =
  rb_n :: nat
  rb_err :: "error option"
  rb_rx :: "rx list"

datatype logline = InvalidIPv4PktInfo "byte list" | InvalidIPv6PktInfo "byte list"

text \<open>
  The world outside the connection: the answers of the batched receive call and of the
  send call (by the number of the call), the calls made so far, the buffer pool (the
  size of its buffers, \<open>protocol.MaxPacketBufferSize\<close>, and the next buffer), the clock,
  the two package-level \<open>sync.Once\<close> values and the lines written to the log.
\<close>

record world =
  rb_script :: "nat \<Rightarrow> rb_response"
  rb_calls :: nat
  wm_script :: "nat \<Rightarrow> nat \<times> error option"
  sent :: "(byte list \<times> byte list \<times> UDPAddr option) list"
  MaxPacketBufferSize :: nat
  pool_next :: nat
  now :: nat
  invalidCmsgOnceV4 :: bool
  invalidCmsgOnceV6 :: bool
  logged :: "logline list"

text \<open>
  Modelled from the spec: the buffer pool is not among the source files. It supplies
  fixed-size packet buffers, each owned by one holder at a time; a buffer is given here
  with its identity and its \<open>Data\<close> slice over an array of the fixed size.
\<close>

definition getPacketBuffer :: "world \<Rightarrow> (nat \<times> byte slice) \<times> world" where
  "getPacketBuffer w =
     ((pool_next w, make_bytes (MaxPacketBufferSize w)), w\<lparr>pool_next := Suc (pool_next w)\<rparr>)"

definition write_front :: "byte slice \<Rightarrow> byte list \<Rightarrow> byte slice" where
  "write_front b bs =
     b\<lparr>s_arr := take (s_len b) bs @ drop (min (s_len b) (length bs)) (s_arr b)\<rparr>"

definition deliver :: "rx \<Rightarrow> Message \<Rightarrow> Message" where
  "deliver r m =
     m\<lparr>Buffers := (case Buffers m of [] \<Rightarrow> [] | b # bs \<Rightarrow> write_front b (rx_payload r) # bs),
       OOB := write_front (OOB m) (rx_oob r),
       Addr := rx_addr r, N := rx_N r, NN := rx_NN r\<rparr>"

fun fill :: "rx list \<Rightarrow> Message list \<Rightarrow> Message list" where
  "fill (r # rs) (m # ms) = deliver r m # fill rs ms"
| "fill rs ms = ms"

text \<open>
  \<open>batchConn.ReadBatch(ms, 0)\<close>: the next answer of the environment. The datagrams are
  written into the messages of \<open>ms\<close> in order; the count and the error are the
  environment's.
\<close>

definition ReadBatch :: "Message slice \<Rightarrow> world \<Rightarrow> (nat \<times> error option) \<times> Message slice \<times> world" where
  "ReadBatch ms w =
     (let r = rb_script w (rb_calls w)
      in ((rb_n r, rb_err r),
          ms\<lparr>s_arr := fill (rb_rx r) (take (s_len ms) (s_arr ms)) @ drop (s_len ms) (s_arr ms)\<rparr>,
          w\<lparr>rb_calls := Suc (rb_calls w)\<rparr>))"

text \<open>\<open>OOBCapablePacketConn.WriteMsgUDP(b, oob, addr)\<close>: recorded, answered by the environment.\<close>

definition WriteMsgUDP ::
    "world \<Rightarrow> byte list \<Rightarrow> byte list \<Rightarrow> UDPAddr option \<Rightarrow> (nat \<times> error option) \<times> world" where
  "WriteMsgUDP w b oob a = (wm_script w (length (sent w)), w\<lparr>sent := sent w @ [(b, oob, a)]\<rparr>)"

text \<open>\<open>sync.Once.Do\<close> around the two \<open>log.Printf\<close> calls.\<close>

definition invalidCmsgOnceV4_Do :: "byte slice \<Rightarrow> world \<Rightarrow> world" where
  "invalidCmsgOnceV4_Do body w =
     (if invalidCmsgOnceV4 w then w
      else w\<lparr>invalidCmsgOnceV4 := True, logged := logged w @ [InvalidIPv4PktInfo (elems body)]\<rparr>)"

definition invalidCmsgOnceV6_Do :: "byte slice \<Rightarrow> world \<Rightarrow> world" where
  "invalidCmsgOnceV6_Do body w =
     (if invalidCmsgOnceV6 w then w
      else w\<lparr>invalidCmsgOnceV6 := True, logged := logged w @ [InvalidIPv6PktInfo (elems body)]\<rparr>)"

subsection \<open>ReadPacket\<close>

text \<open>
  The loop that replaces the data buffers of the consumed messages, over the values
  \<open>0, \<dots>, readPos - 1\<close> of \<open>i\<close>. It ends early when an index is out of range.
\<close>

fun ReadPacket_buffers :: "nat list \<Rightarrow> oobConn \<Rightarrow> world \<Rightarrow> abort option \<times> oobConn \<times> world" where
  "ReadPacket_buffers [] c w = (None, c, w)"
| "ReadPacket_buffers (i # is) c w =
     (case getPacketBuffer w of ((ptr, Data0), w1) \<Rightarrow>
        (case slice_to Data0 (MaxPacketBufferSize w1) of
           Panic a \<Rightarrow> (Some a, c, w1)
         | Return Data1 \<Rightarrow>
             if \<not> i < length (buffers c) then (Some IndexOutOfRange, c, w1)
             else let c1 = c\<lparr>buffers := (buffers c)[i := Some ptr]\<rparr> in
               (case index (messages c1) i of
                  Panic a \<Rightarrow> (Some a, c1, w1)
                | Return m \<Rightarrow>
                    if Buffers m = [] then (Some IndexOutOfRange, c1, w1)
                    else ReadPacket_buffers is
                           (c1\<lparr>messages := (messages c1)
                                \<lparr>s_arr := (s_arr (messages c1))[i := m\<lparr>Buffers := (Buffers m)[0 := Data1]\<rparr>]\<rparr>\<rparr>)
                           w1)))"

text \<open>
  The block \<open>if len(c.messages) == int(c.readPos) { \<dots> }\<close>. The first component is the
  result when the call returns or panics inside the block; it is \<open>None\<close> when control
  goes on to the code after the block.
\<close>

definition ReadPacket_batch ::
    "oobConn \<Rightarrow> world \<Rightarrow> (receivedPacket \<times> error option) exec option \<times> oobConn \<times> world" where
  "ReadPacket_batch c w =
     (if s_len (messages c) = unat (readPos c) then
        (case slice_to (messages c) batchSize of
           Panic a \<Rightarrow> (Some (Panic a), c, w)
         | Return ms \<Rightarrow>
             (case ReadPacket_buffers [0..<unat (readPos c)] (c\<lparr>messages := ms\<rparr>) w of
                (Some a, c1, w1) \<Rightarrow> (Some (Panic a), c1, w1)
              | (None, c1, w1) \<Rightarrow>
                  (let c2 = c1\<lparr>readPos := 0\<rparr> in
                   case ReadBatch (messages c2) w1 of ((n, err), ms', w2) \<Rightarrow>
                     (let c3 = c2\<lparr>messages := ms'\<rparr> in
                      if n = 0 \<or> err \<noteq> None
                      then (Some (Return (zero_receivedPacket, err)), c3, w2)
                      else (case slice_to (messages c3) n of
                              Panic a \<Rightarrow> (Some (Panic a), c3, w2)
                            | Return ms'' \<Rightarrow> (None, c3\<lparr>messages := ms''\<rparr>, w2))))))
      else (None, c, w))"

text \<open>The handling of one control message: the two \<open>if hdr.Level == \<dots>\<close> blocks.\<close>

definition ReadPacket_IPv4 ::
    "Cmsghdr \<Rightarrow> byte slice \<Rightarrow> receivedPacket \<Rightarrow> world \<Rightarrow> receivedPacket exec \<times> world" where
  "ReadPacket_IPv4 hdr body p w =
     (if Level hdr = IPPROTO_IP then
        if Type hdr = IP_TOS then
          (case index body 0 of
             Panic a \<Rightarrow> (Panic a, w)
           | Return b0 \<Rightarrow>
               (case ParseECNHeaderBits (b0 AND ecnMask) of
                  Panic a \<Rightarrow> (Panic a, w)
                | Return e \<Rightarrow> (Return (p\<lparr>ecn := e\<rparr>), w)))
        else if Type hdr = IP_PKTINFO then
          (case parseIPv4PktInfo body of (ip, idx, ok) \<Rightarrow>
             if ok then (Return (p\<lparr>info := (info p)\<lparr>addr := ip, ifIndex := idx\<rparr>\<rparr>), w)
             else (Return p, invalidCmsgOnceV4_Do body w))
        else (Return p, w)
      else (Return p, w))"

definition ReadPacket_IPv6 ::
    "Cmsghdr \<Rightarrow> byte slice \<Rightarrow> receivedPacket \<Rightarrow> world \<Rightarrow> receivedPacket exec \<times> world" where
  "ReadPacket_IPv6 hdr body p w =
     (if Level hdr = IPPROTO_IPV6 then
        if Type hdr = IPV6_RECVTCLASS then
          (case index body 0 of
             Panic a \<Rightarrow> (Panic a, w)
           | Return b0 \<Rightarrow>
               (case ParseECNHeaderBits (b0 AND ecnMask) of
                  Panic a \<Rightarrow> (Panic a, w)
                | Return e \<Rightarrow> (Return (p\<lparr>ecn := e\<rparr>), w)))
        else if Type hdr = IPV6_PKTINFO then
          (if s_len body = 20 then
             (Return (p\<lparr>info := (info p)\<lparr>addr := Unmap (AddrFrom16 (take 16 (elems body))),
                                          ifIndex := uint32_of_bytes (drop 16 (elems body))\<rparr>\<rparr>), w)
           else (Return p, invalidCmsgOnceV6_Do body w))
        else (Return p, w)
      else (Return p, w))"

definition ReadPacket_cmsg ::
    "Cmsghdr \<Rightarrow> byte slice \<Rightarrow> receivedPacket \<Rightarrow> world \<Rightarrow> receivedPacket exec \<times> world" where
  "ReadPacket_cmsg hdr body p w =
     (case ReadPacket_IPv4 hdr body p w of
        (Panic a, w1) \<Rightarrow> (Panic a, w1)
      | (Return p1, w1) \<Rightarrow> ReadPacket_IPv6 hdr body p1 w1)"

text \<open>
  The loop \<open>for len(data) > 0\<close> over the chain of control messages. That it ends is
  proved below, from the alignment arithmetic.
\<close>

function ReadPacket_cmsgs ::
    "byte slice \<Rightarrow> receivedPacket \<Rightarrow> world \<Rightarrow> (error + receivedPacket) exec \<times> world" where
  "ReadPacket_cmsgs dat p w =
     (if s_len dat = 0 then (Return (Inr p), w)
      else (case ParseOneSocketControlMessage dat of
              Panic a \<Rightarrow> (Panic a, w)
            | Return (Inl err) \<Rightarrow> (Return (Inl err), w)
            | Return (Inr (hdr, body, remainder)) \<Rightarrow>
                (case ReadPacket_cmsg hdr body p w of
                   (Panic a, w1) \<Rightarrow> (Panic a, w1)
                 | (Return p1, w1) \<Rightarrow> ReadPacket_cmsgs remainder p1 w1)))"
  by pat_completeness auto

text \<open>
  The code after the block. First the message and its buffer are taken and the cursor
  moves on (\<open>msg := c.messages[c.readPos]\<close> to \<open>c.readPos++\<close>); the rest of the function,
  \<open>ReadPacket_packet\<close>, makes the packet from the message and no longer touches the
  connection.
\<close>

definition ReadPacket_packet ::
    "Message \<Rightarrow> packetBuffer_ptr \<Rightarrow> world \<Rightarrow> (receivedPacket \<times> error option) exec \<times> world" where
  "ReadPacket_packet msg buf w =
     (case slice_to (OOB msg) (NN msg) of
        Panic a \<Rightarrow> (Panic a, w)
      | Return dat \<Rightarrow>
          if Buffers msg = [] then (Panic IndexOutOfRange, w)
          else (case slice_to (Buffers msg ! 0) (N msg) of
                  Panic a \<Rightarrow> (Panic a, w)
                | Return payload \<Rightarrow>
                    (let p = \<lparr>remoteAddr = Addr msg, rcvTime = now w, data = payload,
                              buffer = buf, ecn = ECNUnsupported,
                              info = \<lparr>addr = Addr_zero, ifIndex = 0\<rparr>\<rparr>
                     in case ReadPacket_cmsgs dat p w of
                          (Panic a, w1) \<Rightarrow> (Panic a, w1)
                        | (Return (Inl err), w1) \<Rightarrow> (Return (zero_receivedPacket, Some err), w1)
                        | (Return (Inr p1), w1) \<Rightarrow> (Return (p1, None), w1))))"

definition ReadPacket_message ::
    "oobConn \<Rightarrow> world \<Rightarrow> (receivedPacket \<times> error option) exec \<times> oobConn \<times> world" where
  "ReadPacket_message c w =
     (case index (messages c) (unat (readPos c)) of
        Panic a \<Rightarrow> (Panic a, c, w)
      | Return msg \<Rightarrow>
          if \<not> unat (readPos c) < length (buffers c) then (Panic IndexOutOfRange, c, w)
          else (case ReadPacket_packet msg (buffers c ! unat (readPos c)) w of
                  (r, w1) \<Rightarrow> (r, c\<lparr>readPos := readPos c + 1\<rparr>, w1)))"

definition ReadPacket ::
    "oobConn \<Rightarrow> world \<Rightarrow> (receivedPacket \<times> error option) exec \<times> oobConn \<times> world" where
  "ReadPacket c w =
     (case ReadPacket_batch c w of
        (Some r, c1, w1) \<Rightarrow> (r, c1, w1)
      | (None, c1, w1) \<Rightarrow> ReadPacket_message c1 w1)"

subsection \<open>WritePacket\<close>

definition capabilities :: "oobConn \<Rightarrow> connCapabilities" where
  "capabilities c = cap c"

text \<open>
  \<open>appendIPv4ECNMsg\<close> and \<open>appendIPv6ECNMsg\<close>: \<open>cmsgLen(4)\<close> bytes are appended, the
  header is written at \<open>startLen\<close> and the ECN bits at \<open>startLen + cmsgSpace(0)\<close>. The
  source writes \<open>h.Len = cmsgLen(dataLen)\<close>, a \<open>uintptr\<close> assigned to a \<open>uint32\<close> field
  with no conversion, which the type checker of Go does not accept as it stands. The
  model takes the conversion to \<open>uint32\<close> that \<open>SetLen\<close> makes in
  \<open>appendUDPSegmentSizeMsg\<close>; this is a repair of the source, and no property below
  depends on the two functions.
\<close>

definition appendIPv4ECNMsg :: "byte slice \<Rightarrow> ECN \<Rightarrow> byte slice exec" where
  "appendIPv4ECNMsg b val =
     (let startLen = s_len b;
          dataLen = 4;
          b1 = append_zeros b (unat (cmsgLen dataLen));
          h = \<lparr>Len = ucast (cmsgLen dataLen), Level = IPPROTO_IP, Type = IP_TOS\<rparr>;
          b2 = store_bytes b1 startLen (bytes_of_Cmsghdr h);
          offset = startLen + unat (cmsgSpace 0)
      in case ToHeaderBits val of
           Panic a \<Rightarrow> Panic a
         | Return bits \<Rightarrow>
             if offset < s_len b2 then Return (store_bytes b2 offset [bits])
             else Panic IndexOutOfRange)"

definition appendIPv6ECNMsg :: "byte slice \<Rightarrow> ECN \<Rightarrow> byte slice exec" where
  "appendIPv6ECNMsg b val =
     (let startLen = s_len b;
          dataLen = 4;
          b1 = append_zeros b (unat (cmsgLen dataLen));
          h = \<lparr>Len = ucast (cmsgLen dataLen), Level = IPPROTO_IPV6, Type = IPV6_RECVTCLASS\<rparr>;
          b2 = store_bytes b1 startLen (bytes_of_Cmsghdr h);
          offset = startLen + unat (cmsgSpace 0)
      in case ToHeaderBits val of
           Panic a \<Rightarrow> Panic a
         | Return bits \<Rightarrow>
             if offset < s_len b2 then Return (store_bytes b2 offset [bits])
             else Panic IndexOutOfRange)"

text \<open>
  The block \<open>if ecn != protocol.ECNUnsupported\<close> after its capability check: the
  checked type assertion, and \<open>remoteUDPAddr.IP\<close>, which dereferences the pointer.
\<close>

definition WritePacket_ecn :: "byte slice \<Rightarrow> net_Addr \<Rightarrow> ECN \<Rightarrow> byte slice exec" where
  "WritePacket_ecn oob a e =
     (case a of
        UDPAddrPtr None \<Rightarrow> Panic NilPointerDereference
      | UDPAddrPtr (Some remoteUDPAddr) \<Rightarrow>
          if To4 (IP remoteUDPAddr) \<noteq> [] then appendIPv4ECNMsg oob e
          else appendIPv6ECNMsg oob e
      | _ \<Rightarrow> Return oob)"

definition WritePacket ::
    "oobConn \<Rightarrow> world \<Rightarrow> byte slice \<Rightarrow> net_Addr \<Rightarrow> byte slice \<Rightarrow> uint16 \<Rightarrow> ECN
       \<Rightarrow> (nat \<times> error option) exec \<times> world" where
  "WritePacket c w b a packetInfoOOB gsoSize e =
     (let oob = packetInfoOOB in
      if gsoSize > 0 \<and> \<not> GSO (capabilities c) then (Panic (Explicit ''GSO disabled''), w)
      else let oob1 = (if gsoSize > 0 then appendUDPSegmentSizeMsg oob gsoSize else oob) in
        if e \<noteq> ECNUnsupported \<and> \<not> ECN (capabilities c)
        then (Panic (Explicit ''tried to send an ECN-marked packet although ECN is disabled''), w)
        else (case (if e \<noteq> ECNUnsupported then WritePacket_ecn oob1 a e else Return oob1) of
                Panic x \<Rightarrow> (Panic x, w)
              | Return oob2 \<Rightarrow>
                  (case a of
                     UDPAddrPtr u \<Rightarrow>
                       (case WriteMsgUDP w (elems b) (elems oob2) u of
                          (r, w1) \<Rightarrow> (Return r, w1))
                   | _ \<Rightarrow> (Panic TypeAssertionFailed, w))))"

subsection \<open>newConn\<close>

text \<open>
  What the socket answers while a connection is made: the errors of \<open>SyscallConn\<close> and
  \<open>Control\<close>, the local address, the errors of the four \<open>SetsockoptInt\<close> calls, and those
  of the calls of \<open>getMaxGSOSegments\<close> on its dummy socket.
\<close>

record sockenv =
  SyscallConn_err :: "error option"
  LocalAddr :: net_Addr
  Control_err :: "error option"
  errECNIPv4 :: "error option"
  errECNIPv6 :: "error option"
  errPIIPv4 :: "error option"
  errPIIPv6 :: "error option"
  Socket_AF_INET6_err :: "error option"
  Socket_AF_INET_err :: "error option"
  Setsockopt_UDP_SEND_MSG_SIZE_err :: "error option"

definition getMaxGSOSegments :: "sockenv \<Rightarrow> nat" where
  "getMaxGSOSegments env =
     (if Socket_AF_INET6_err env \<noteq> None \<and> Socket_AF_INET_err env \<noteq> None then 1
      else if Setsockopt_UDP_SEND_MSG_SIZE_err env \<noteq> None then 1
      else 512)"

definition isGSOEnabled :: "sockenv \<Rightarrow> bool" where
  "isGSOEnabled env = (if getMaxGSOSegments env = 512 then True else False)"

definition isECNEnabled :: bool where
  "isECNEnabled = True"

text \<open>
  \<open>newConn\<close>. The local address is inspected after \<open>SyscallConn\<close> has succeeded: the
  checked type assertion holds for a nil \<open>*net.UDPAddr\<close> too, and \<open>udpAddr.IP\<close> then
  dereferences the nil pointer.
\<close>

definition newConn :: "sockenv \<Rightarrow> bool \<Rightarrow> (error + oobConn) exec" where
  "newConn env supportsDF =
     (case SyscallConn_err env of
        Some err \<Rightarrow> Return (Inl err)
      | None \<Rightarrow>
          (case (case LocalAddr env of
                   UDPAddrPtr None \<Rightarrow> Panic NilPointerDereference
                 | UDPAddrPtr (Some udpAddr) \<Rightarrow> Return (IsUnspecified (IP udpAddr))
                 | _ \<Rightarrow> Return False) of
             Panic a \<Rightarrow> Panic a
           | Return needsPacketInfo \<Rightarrow>
               (case Control_err env of
                  Some err \<Rightarrow> Return (Inl err)
                | None \<Rightarrow>
                    if errECNIPv4 env \<noteq> None \<and> errECNIPv6 env \<noteq> None
                    then Return (Inl (ErrorString ''activating ECN failed for both IPv4 and IPv6''))
                    else if needsPacketInfo \<and> errPIIPv4 env \<noteq> None \<and> errPIIPv6 env \<noteq> None
                    then Return (Inl (ErrorString
                           ''activating packet info failed for both IPv4 and IPv6''))
                    else
                      (let msg = \<lparr>Buffers = [nil_slice], OOB = make_bytes oobBufferSize,
                                   Addr = NoAddr, N = 0, NN = 0\<rparr>;
                           msgs = \<lparr>s_arr = replicate batchSize msg, s_len = batchSize\<rparr>
                       in Return (Inr \<lparr>readPos = of_nat batchSize, messages = msgs,
                               buffers = replicate batchSize None,
                               cap = \<lparr>DF = supportsDF, GSO = isGSOEnabled env,
                                      ECN = isECNEnabled\<rparr>\<rparr>)))))"

section \<open>Notions the properties are stated with\<close>

text \<open>The cursor invariant of the batch: \<open>0 \<le> readPos \<le> len(messages)\<close>.\<close>

definition cursor_inv :: "oobConn \<Rightarrow> bool" where
  "cursor_inv c = (unat (readPos c) \<le> s_len (messages c))"

text \<open>
  The shape \<open>newConn\<close> gives a connection and every call keeps: the message slice views
  an array of \<open>batchSize\<close> messages, each with its one preallocated data buffer slot, and
  there are \<open>batchSize\<close> buffer pointers.
\<close>

definition conn_shape :: "oobConn \<Rightarrow> bool" where
  "conn_shape c =
     (cap_of (messages c) = batchSize \<and> s_len (messages c) \<le> batchSize \<and>
      length (buffers c) = batchSize \<and>
      list_all (\<lambda>m. Buffers m \<noteq> []) (s_arr (messages c)))"

text \<open>A number of calls of \<open>ReadPacket\<close> one after the other, whatever each one returns.\<close>

fun ReadPacket_calls :: "nat \<Rightarrow> oobConn \<Rightarrow> world \<Rightarrow> oobConn \<times> world" where
  "ReadPacket_calls 0 c w = (c, w)"
| "ReadPacket_calls (Suc n) c w =
     (case ReadPacket c w of (r, c1, w1) \<Rightarrow> ReadPacket_calls n c1 w1)"

text \<open>The diagnostics of each address family among the lines of the log.\<close>

fun is_IPv4_line :: "logline \<Rightarrow> bool" where
  "is_IPv4_line (InvalidIPv4PktInfo bs) = True"
| "is_IPv4_line (InvalidIPv6PktInfo bs) = False"

definition IPv4_lines :: "world \<Rightarrow> nat" where
  "IPv4_lines w = length (filter is_IPv4_line (logged w))"

definition IPv6_lines :: "world \<Rightarrow> nat" where
  "IPv6_lines w = length (filter (\<lambda>l. \<not> is_IPv4_line l) (logged w))"

text \<open>
  The log agrees with the two \<open>sync.Once\<close> values: a diagnostic has been written at most
  once, and not at all while its \<open>Once\<close> has not run.
\<close>

definition log_inv :: "world \<Rightarrow> bool" where
  "log_inv w =
     (IPv4_lines w \<le> (if invalidCmsgOnceV4 w then 1 else 0) \<and>
      IPv6_lines w \<le> (if invalidCmsgOnceV6 w then 1 else 0))"


text \<open>Whether the dynamic type of an address is \<open>*net.UDPAddr\<close>.\<close>

fun is_UDPAddr :: "net_Addr \<Rightarrow> bool" where
  "is_UDPAddr (UDPAddrPtr u) = True"
| "is_UDPAddr a = False"

subsection \<open>Concrete inputs\<close>

definition example_env :: sockenv where
  "example_env =
     \<lparr>SyscallConn_err = None,
      LocalAddr = UDPAddrPtr (Some \<lparr>IP = [0, 0, 0, 0], Port = 443, Zone = []\<rparr>),
      Control_err = None, errECNIPv4 = None, errECNIPv6 = None,
      errPIIPv4 = None, errPIIPv6 = None,
      Socket_AF_INET6_err = None, Socket_AF_INET_err = None,
      Setsockopt_UDP_SEND_MSG_SIZE_err = Some (SyscallError 10042)\<rparr>"

text \<open>The connection \<open>newConn\<close> makes on that socket: no GSO, nothing read yet.\<close>

definition fresh_conn :: oobConn where
  "fresh_conn =
     \<lparr>readPos = 1,
      messages = \<lparr>s_arr = [\<lparr>Buffers = [nil_slice], OOB = make_bytes oobBufferSize,
                            Addr = NoAddr, N = 0, NN = 0\<rparr>], s_len = 1\<rparr>,
      buffers = [None],
      cap = \<lparr>DF = True, GSO = False, ECN = True\<rparr>\<rparr>"

text \<open>A world at the start of the process, with the given answers to the receive calls.\<close>

definition start_world :: "(nat \<Rightarrow> rb_response) \<Rightarrow> world" where
  "start_world script =
     \<lparr>rb_script = script, rb_calls = 0, wm_script = (\<lambda>k. (0, None)), sent = [],
      MaxPacketBufferSize = 16, pool_next = 0, now = 0,
      invalidCmsgOnceV4 = False, invalidCmsgOnceV6 = False, logged = []\<rparr>"

text \<open>A receive call that fails: no message, and an error of the socket.\<close>

definition failed_receive :: rb_response where
  "failed_receive = \<lparr>rb_n = 0, rb_err = Some (SyscallError 10054), rb_rx = []\<rparr>"

definition peer :: net_Addr where
  "peer = UDPAddrPtr (Some \<lparr>IP = [192, 0, 2, 7], Port = 4433, Zone = []\<rparr>)"

text \<open>One datagram with the given ancillary data.\<close>

definition one_datagram :: "byte list \<Rightarrow> rb_response" where
  "one_datagram oob =
     \<lparr>rb_n = 1, rb_err = None,
      rb_rx = [\<lparr>rx_payload = [1, 2, 3], rx_oob = oob, rx_addr = peer,
                rx_N = 3, rx_NN = length oob\<rparr>]\<rparr>"


text \<open>
  A packet-info record with a payload of seven bytes, at level \<open>IPPROTO_IP\<close> and at
  level \<open>IPPROTO_IPV6\<close>.
\<close>

definition short_IPv4_pktinfo :: "byte list" where
  "short_IPv4_pktinfo = [19, 0, 0, 0, 0, 0, 0, 0, 19, 0, 0, 0, 10, 0, 0, 1, 5, 0, 0]"

definition short_IPv6_pktinfo :: "byte list" where
  "short_IPv6_pktinfo = [19, 0, 0, 0, 41, 0, 0, 0, 19, 0, 0, 0, 10, 0, 0, 1, 5, 0, 0]"

text \<open>
  An IPv4 packet-info record of the expected size: destination 192.168.1.1, received on
  the interface of index 5.
\<close>

definition IPv4_pktinfo :: "byte list" where
  "IPv4_pktinfo = [20, 0, 0, 0, 0, 0, 0, 0, 19, 0, 0, 0, 192, 168, 1, 1, 5, 0, 0, 0]"

text \<open>
  Ancillary data of two records: an \<open>IP_TOS\<close> record of length 12, which has no payload,
  then a record that declares the length 5, less than a header.
\<close>

definition empty_TOS_then_short :: "byte list" where
  "empty_TOS_then_short = [12, 0, 0, 0, 0, 0, 0, 0, 3, 0, 0, 0, 5, 0, 0, 0]"

text \<open>A connection with GSO but without ECN.\<close>

definition ECN_off_conn :: oobConn where
  "ECN_off_conn = fresh_conn\<lparr>cap := \<lparr>DF = True, GSO = True, ECN = False\<rparr>\<rparr>"

section \<open>The codec\<close>

text \<open>The alignment arithmetic, needed to see that the loop over the chain ends.\<close>

lemma and_not_3: "(w::64 word) AND NOT 3 = push_bit 2 (drop_bit 2 w)"
proof -
  have m: "(3::64 word) = mask 2" by (simp add: mask_eq_exp_minus_1)
  have s: "\<And>n::nat. 2 \<le> n \<Longrightarrow> Suc (Suc (n - 2)) = n" by simp
  show ?thesis
    unfolding m by (rule bit_word_eqI) (auto simp add: bit_simps s)
qed

lemma unat_and_not_3: "unat ((w::64 word) AND NOT 3) = unat w div 4 * 4"
proof -
  have "unat (push_bit 2 (drop_bit 2 w)) = unat (drop_bit 2 w * 4)"
    by (simp add: push_bit_eq_mult)
  also have "\<dots> = (unat (drop_bit 2 w) * 4) mod 2 ^ 64"
    by (simp add: unat_word_ariths)
  also have "unat (drop_bit 2 w) = unat w div 4"
    by (simp add: unat_drop_bit_eq drop_bit_eq_div unat_div)
  also have "(unat w div 4 * 4) mod 2 ^ 64 = unat w div 4 * 4"
  proof -
    have "unat w < 2 ^ 64" using unsigned_less [of w, where ?'a = nat] by simp
    then have "unat w div 4 * 4 < 2 ^ 64" by simp
    then show ?thesis by simp
  qed
  finally show ?thesis by (simp only: and_not_3)
qed

lemma unat_cmsgDataAlign:
  assumes "unat (x::64 word) < 2 ^ 32"
  shows "unat (cmsgDataAlign x) = (unat x + 3) div 4 * 4"
proof -
  have u: "unat (x + 3) = unat x + 3"
    using assms by (simp add: unat_word_ariths)
  have "cmsgDataAlign x = (x + 3) AND NOT 3" by (simp add: cmsgDataAlign_def add.commute)
  then have "unat (cmsgDataAlign x) = unat (x + 3) div 4 * 4"
    by (simp only: unat_and_not_3)
  then show ?thesis by (simp only: u)
qed

lemma unat_32_bound: "unat (l :: 32 word) < 2 ^ 32"
  using unsigned_less [of l, where ?'a = nat] by simp

lemma unat_ucast_32_64: "unat (ucast (l::32 word) :: 64 word) = unat l"
proof -
  have "unat l < 2 ^ 64" using unat_32_bound [of l] by simp
  then show ?thesis by (simp add: unsigned_ucast_eq take_bit_nat_eq_self)
qed

lemma ucast_less_cmsgSize: "((ucast (l::32 word) :: 64 word) < cmsgSize) = (unat l < 12)"
  by (simp add: word_less_nat_alt unat_ucast_32_64 cmsgSize_def)

lemma unat_align_Len: "unat (cmsgDataAlign (ucast (l::32 word))) = (unat l + 3) div 4 * 4"
  using unat_cmsgDataAlign [of "ucast l"] unat_32_bound [of l] by (simp add: unat_ucast_32_64)

lemma cmsg_sizes:
  "cmsgDataAlign cmsgSize = 12" "cmsgSpace 0 = 12" "cmsgSpace 2 = 16"
  "cmsgLen 0 = 12" "cmsgLen 2 = 14" "cmsgLen 4 = 16"
  by (simp_all add: cmsgDataAlign_def cmsgSize_def cmsgSpace_def cmsgLen_def cmsgHdrAlign_def
      cmsgAlign_def)

text \<open>What a successful parse returns, and that the remainder is shorter than the input.\<close>

lemma socketControlMessageHeaderAndData_Inr:
  assumes "socketControlMessageHeaderAndData b = Return (Inr (h, dbuf))"
  shows "Len h = uint32_of_bytes (take 4 (s_arr b))" and "12 \<le> unat (Len h)"
    and "unat (Len h) \<le> s_len b" and "0 < s_len b"
  using assms
  by (auto simp add: socketControlMessageHeaderAndData_def Let_def ucast_less_cmsgSize
      Cmsghdr_of_bytes_def split: if_splits exec.splits)

lemma ParseOne_remainder_shorter:
  assumes "ParseOneSocketControlMessage b = Return (Inr (h, dbuf, remainder))"
  shows "s_len remainder < s_len b"
proof -
  from assms obtain d where hd: "socketControlMessageHeaderAndData b = Return (Inr (h, d))"
    by (auto simp add: ParseOneSocketControlMessage_def Let_def
        split: exec.splits sum.splits if_splits)
  note facts = socketControlMessageHeaderAndData_Inr [OF hd]
  have pos: "0 < unat (cmsgDataAlign (ucast (Len h)))"
    using facts(2) by (simp add: unat_align_Len)
  show ?thesis
    using assms hd pos facts(4)
    by (auto simp add: ParseOneSocketControlMessage_def Let_def slice_from_def nil_slice_def
        split: if_splits)
qed

text \<open>So the loop over the chain ends: each round leaves a shorter slice.\<close>

termination ReadPacket_cmsgs
  by (relation "measure (\<lambda>(dat, p, w). s_len dat)") (auto simp add: ParseOne_remainder_shorter)

declare ReadPacket_cmsgs.simps [simp del]

lemma uint16_roundtrip: "uint16_of_bytes (bytes_of_uint16 w @ bs) = w"
  unfolding uint16_of_bytes_def bytes_of_uint16_def
  by (simp, rule bit_word_eqI) (auto simp add: bit_simps)

lemma replicate_16: "replicate 16 (x::byte) = [x,x,x,x,x,x,x,x,x,x,x,x,x,x,x,x]"
  by (simp add: eval_nat_numeral)

text \<open>
  The record that \<open>appendUDPSegmentSizeMsg\<close> writes after an empty slice: in a new array
  when the slice has no capacity for it (\<open>rest\<close> is then empty), in place otherwise.
\<close>

lemma appendUDPSegmentSizeMsg_empty:
  assumes "s_len b = 0"
  shows "\<exists>rest. appendUDPSegmentSizeMsg b sz =
           \<lparr>s_arr = [14, 0, 0, 0, 17, 0, 0, 0, 2, 0, 0, 0] @ bytes_of_uint16 sz @ [0, 0] @ rest,
            s_len = 16\<rparr>"
  using assms
  by (simp add: appendUDPSegmentSizeMsg_def cmsg_sizes append_zeros_def cap_of_def elems_def
      store_bytes_def bytes_of_Cmsghdr_def bytes_of_uint32_def bytes_of_uint16_def Let_def
      IPPROTO_UDP_def UDP_SEND_MSG_SIZE_def replicate_16)

lemma ParseOne_segment_size_record:
  "ParseOneSocketControlMessage
     \<lparr>s_arr = [14, 0, 0, 0, 17, 0, 0, 0, 2, 0, 0, 0] @ bytes_of_uint16 sz @ [0, 0] @ rest,
      s_len = 16\<rparr> =
   Return (Inr (\<lparr>Len = 14, Level = IPPROTO_UDP, Type = UDP_SEND_MSG_SIZE\<rparr>,
                \<lparr>s_arr = bytes_of_uint16 sz @ [0, 0] @ rest, s_len = 2\<rparr>, nil_slice))"
  by (simp add: ParseOneSocketControlMessage_def socketControlMessageHeaderAndData_def
      cmsg_sizes cap_of_def bytes_of_uint16_def Let_def IPPROTO_UDP_def UDP_SEND_MSG_SIZE_def
      uint32_of_bytes_def cmsgSize_def slice_range_def Cmsghdr_of_bytes_def cmsgDataAlign_def)

text \<open>
  C2. For every 16-bit segmentation size, parsing the buffer that
  \<open>appendUDPSegmentSizeMsg\<close> makes from an empty buffer succeeds with the header of the
  record (length \<open>cmsgLen(2)\<close>, level \<open>IPPROTO_UDP\<close>, type \<open>UDP_SEND_MSG_SIZE\<close>), a payload
  of two bytes that decode to exactly that size, and an empty remainder.
\<close>

theorem segment_size_roundtrip:
  assumes "s_len b = 0"
  shows "case ParseOneSocketControlMessage (appendUDPSegmentSizeMsg b sz) of
           Return (Inr (hdr, body, remainder)) \<Rightarrow>
             hdr = \<lparr>Len = ucast (cmsgLen 2), Level = IPPROTO_UDP, Type = UDP_SEND_MSG_SIZE\<rparr> \<and>
             s_len body = 2 \<and> uint16_of_bytes (elems body) = sz \<and> s_len remainder = 0
         | _ \<Rightarrow> False"
proof -
  from appendUDPSegmentSizeMsg_empty [OF assms] obtain rest where
    "appendUDPSegmentSizeMsg b sz =
       \<lparr>s_arr = [14, 0, 0, 0, 17, 0, 0, 0, 2, 0, 0, 0] @ bytes_of_uint16 sz @ [0, 0] @ rest,
        s_len = 16\<rparr>"
    by blast
  then show ?thesis
    by (simp only: ParseOne_segment_size_record)
       (simp add: elems_def nil_slice_def cmsg_sizes bytes_of_uint16_def
          uint16_roundtrip [unfolded bytes_of_uint16_def, simplified])
qed

theorem segment_size_roundtrip_witness:
  "s_len (nil_slice :: byte slice) = 0 \<and>
   (case ParseOneSocketControlMessage (appendUDPSegmentSizeMsg nil_slice 1200) of
      Return (Inr (hdr, body, remainder)) \<Rightarrow>
        hdr = \<lparr>Len = ucast (cmsgLen 2), Level = IPPROTO_UDP, Type = UDP_SEND_MSG_SIZE\<rparr> \<and>
        s_len body = 2 \<and> uint16_of_bytes (elems body) = 1200 \<and> s_len remainder = 0
    | _ \<Rightarrow> False)"
  using segment_size_roundtrip [of nil_slice 1200] by (simp add: nil_slice_def)

section \<open>What the parts of ReadPacket do to the connection and to the world\<close>

lemma newConn_example: "newConn example_env True = Return (Inr fresh_conn)"
  by (simp add: newConn_def example_env_def fresh_conn_def IsUnspecified_def To4_def batchSize_def
      isGSOEnabled_def getMaxGSOSegments_def isECNEnabled_def)

lemma getPacketBuffer_world:
  "getPacketBuffer w = (x, w') \<Longrightarrow>
     w' = w\<lparr>pool_next := Suc (pool_next w)\<rparr> \<and> x = (pool_next w, make_bytes (MaxPacketBufferSize w))"
  by (auto simp add: getPacketBuffer_def)

lemma ReadPacket_buffers_world:
  "ReadPacket_buffers is c w = (r, c', w') \<Longrightarrow>
     rb_calls w' = rb_calls w \<and> rb_script w' = rb_script w \<and> logged w' = logged w \<and>
     invalidCmsgOnceV4 w' = invalidCmsgOnceV4 w \<and> invalidCmsgOnceV6 w' = invalidCmsgOnceV6 w"
proof (induction "is" arbitrary: c w)
  case Nil
  then show ?case by simp
next
  case (Cons i "is")
  show ?case
    using Cons.prems
    by (auto simp add: getPacketBuffer_def Let_def split: exec.splits if_splits dest!: Cons.IH)
qed

lemma list_all_update:
  "list_all P xs \<Longrightarrow> P x \<Longrightarrow> list_all P (xs[i := x])"
  by (induction xs arbitrary: i) (auto split: nat.splits)

lemma list_all_nth: "list_all P xs \<Longrightarrow> i < length xs \<Longrightarrow> P (xs ! i)"
  by (simp add: list_all_length)

lemma ReadPacket_buffers_ok:
  assumes "\<forall>i\<in>set is. i < length (buffers c) \<and> i < s_len (messages c)"
    and "s_len (messages c) \<le> length (s_arr (messages c))"
    and "list_all (\<lambda>m. Buffers m \<noteq> []) (s_arr (messages c))"
  shows "\<exists>c' w'. ReadPacket_buffers is c w = (None, c', w') \<and>
           readPos c' = readPos c \<and> cap c' = cap c \<and>
           s_len (messages c') = s_len (messages c) \<and>
           length (s_arr (messages c')) = length (s_arr (messages c)) \<and>
           length (buffers c') = length (buffers c) \<and>
           list_all (\<lambda>m. Buffers m \<noteq> []) (s_arr (messages c'))"
  using assms
proof (induction "is" arbitrary: c w)
  case Nil
  then show ?case by simp
next
  case (Cons i "is")
  let ?w1 = "w\<lparr>pool_next := Suc (pool_next w)\<rparr>"
  let ?c1 = "c\<lparr>buffers := (buffers c)[i := Some (pool_next w)]\<rparr>"
  let ?m = "s_arr (messages c) ! i"
  let ?d = "\<lparr>s_arr = replicate (MaxPacketBufferSize w) (0::byte), s_len = MaxPacketBufferSize w\<rparr>"
  let ?c2 = "?c1\<lparr>messages := (messages ?c1)
               \<lparr>s_arr := (s_arr (messages ?c1))[i := ?m\<lparr>Buffers := (Buffers ?m)[0 := ?d]\<rparr>]\<rparr>\<rparr>"
  from Cons.prems have i: "i < length (buffers c)" "i < s_len (messages c)" by auto
  with Cons.prems have il: "i < length (s_arr (messages c))" by simp
  have ne: "Buffers ?m \<noteq> []"
    using list_all_nth [OF Cons.prems(3) il] .
  have step: "ReadPacket_buffers (i # is) c w = ReadPacket_buffers is ?c2 ?w1"
    using i ne
    by (simp add: getPacketBuffer_def make_bytes_def slice_to_def cap_of_def index_def Let_def)
  have p1: "\<forall>j\<in>set is. j < length (buffers ?c2) \<and> j < s_len (messages ?c2)"
    using Cons.prems(1) by simp
  have p2: "s_len (messages ?c2) \<le> length (s_arr (messages ?c2))"
    using Cons.prems(2) by simp
  have p3: "list_all (\<lambda>m. Buffers m \<noteq> []) (s_arr (messages ?c2))"
    using Cons.prems(3) ne by (simp add: list_all_update)
  from Cons.IH [OF p1 p2 p3, of ?w1] show ?case
    unfolding step by simp
qed

lemma deliver_Buffers: "Buffers m \<noteq> [] \<Longrightarrow> Buffers (deliver r m) \<noteq> []"
  by (cases "Buffers m") (simp_all add: deliver_def)

lemma fill_shape:
  "length (fill rs ms) = length ms \<and>
   (list_all (\<lambda>m. Buffers m \<noteq> []) ms \<longrightarrow> list_all (\<lambda>m. Buffers m \<noteq> []) (fill rs ms))"
  by (induction rs ms rule: fill.induct) (simp_all add: deliver_Buffers)

lemma ReadBatch_shape:
  assumes "ReadBatch ms w = ((n, err), ms', w')"
  shows "s_len ms' = s_len ms" and "length (s_arr ms') = length (s_arr ms)"
    and "list_all (\<lambda>m. Buffers m \<noteq> []) (s_arr ms) \<Longrightarrow> list_all (\<lambda>m. Buffers m \<noteq> []) (s_arr ms')"
    and "rb_calls w' = Suc (rb_calls w)" and "rb_script w' = rb_script w"
    and "logged w' = logged w" and "invalidCmsgOnceV4 w' = invalidCmsgOnceV4 w"
    and "invalidCmsgOnceV6 w' = invalidCmsgOnceV6 w"
    and "n = rb_n (rb_script w (rb_calls w))" and "err = rb_err (rb_script w (rb_calls w))"
proof -
  have l: "list_all (\<lambda>m. Buffers m \<noteq> []) (s_arr ms) \<Longrightarrow>
        list_all (\<lambda>m. Buffers m \<noteq> []) (fill (rb_rx (rb_script w (rb_calls w))) (take (s_len ms) (s_arr ms)) @ drop (s_len ms) (s_arr ms))"
  proof -
    assume a: "list_all (\<lambda>m. Buffers m \<noteq> []) (s_arr ms)"
    then have "list_all (\<lambda>m. Buffers m \<noteq> []) (take (s_len ms) (s_arr ms))"
      and "list_all (\<lambda>m. Buffers m \<noteq> []) (drop (s_len ms) (s_arr ms))"
      by (auto simp add: list_all_iff dest: in_set_takeD in_set_dropD)
    then show ?thesis using fill_shape by simp
  qed
  from assms show "s_len ms' = s_len ms" "length (s_arr ms') = length (s_arr ms)"
    "rb_calls w' = Suc (rb_calls w)" "rb_script w' = rb_script w"
    "logged w' = logged w" "invalidCmsgOnceV4 w' = invalidCmsgOnceV4 w"
    "invalidCmsgOnceV6 w' = invalidCmsgOnceV6 w"
    "n = rb_n (rb_script w (rb_calls w))" "err = rb_err (rb_script w (rb_calls w))"
    by (auto simp add: ReadBatch_def Let_def fill_shape)
  from assms l show "list_all (\<lambda>m. Buffers m \<noteq> []) (s_arr ms) \<Longrightarrow> list_all (\<lambda>m. Buffers m \<noteq> []) (s_arr ms')"
    by (auto simp add: ReadBatch_def Let_def)
qed

lemma once_Do_world:
  "rb_calls (invalidCmsgOnceV4_Do body w) = rb_calls w"
  "rb_script (invalidCmsgOnceV4_Do body w) = rb_script w"
  "rb_calls (invalidCmsgOnceV6_Do body w) = rb_calls w"
  "rb_script (invalidCmsgOnceV6_Do body w) = rb_script w"
  by (simp_all add: invalidCmsgOnceV4_Do_def invalidCmsgOnceV6_Do_def)

lemma once_Do_log_inv:
  "log_inv w \<Longrightarrow> log_inv (invalidCmsgOnceV4_Do body w)"
  "log_inv w \<Longrightarrow> log_inv (invalidCmsgOnceV6_Do body w)"
  by (auto simp add: log_inv_def invalidCmsgOnceV4_Do_def invalidCmsgOnceV6_Do_def
      IPv4_lines_def IPv6_lines_def split: if_splits)

lemma ReadPacket_IPv4_world:
  "ReadPacket_IPv4 hdr body p w = (r, w') \<Longrightarrow>
     rb_calls w' = rb_calls w \<and> rb_script w' = rb_script w \<and> (log_inv w \<longrightarrow> log_inv w')"
  by (auto simp add: ReadPacket_IPv4_def once_Do_world once_Do_log_inv
      split: if_splits exec.splits prod.splits)

lemma ReadPacket_IPv6_world:
  "ReadPacket_IPv6 hdr body p w = (r, w') \<Longrightarrow>
     rb_calls w' = rb_calls w \<and> rb_script w' = rb_script w \<and> (log_inv w \<longrightarrow> log_inv w')"
  by (auto simp add: ReadPacket_IPv6_def once_Do_world once_Do_log_inv
      split: if_splits exec.splits prod.splits)

lemma ReadPacket_cmsg_world:
  "ReadPacket_cmsg hdr body p w = (r, w') \<Longrightarrow>
     rb_calls w' = rb_calls w \<and> rb_script w' = rb_script w \<and> (log_inv w \<longrightarrow> log_inv w')"
  by (auto simp add: ReadPacket_cmsg_def split: prod.splits exec.splits
      dest!: ReadPacket_IPv4_world ReadPacket_IPv6_world)

lemma ReadPacket_cmsgs_world:
  "ReadPacket_cmsgs dat p w = (r, w') \<Longrightarrow>
     rb_calls w' = rb_calls w \<and> rb_script w' = rb_script w \<and> (log_inv w \<longrightarrow> log_inv w')"
proof (induction dat p w arbitrary: r w' rule: ReadPacket_cmsgs.induct)
  case (1 dat p w)
  show ?case
  proof (cases "s_len dat = 0")
    case True
    with "1.prems" show ?thesis by (simp add: ReadPacket_cmsgs.simps)
  next
    case False
    show ?thesis
    proof (cases "ParseOneSocketControlMessage dat")
      case (Panic a)
      with False "1.prems" show ?thesis by (simp add: ReadPacket_cmsgs.simps)
    next
      case (Return x)
      show ?thesis
      proof (cases x)
        case (Inl err)
        with Return False "1.prems" show ?thesis by (simp add: ReadPacket_cmsgs.simps)
      next
        case (Inr t)
        obtain hdr body remainder where t: "t = (hdr, body, remainder)" by (cases t)
        obtain r1 w1 where c: "ReadPacket_cmsg hdr body p w = (r1, w1)" by force
        note cw = ReadPacket_cmsg_world [OF c]
        show ?thesis
        proof (cases r1)
          case (Panic a)
          with Return Inr t c False "1.prems" cw show ?thesis
            by (simp add: ReadPacket_cmsgs.simps)
        next
          case (Return p1)
          with \<open>ParseOneSocketControlMessage dat = Return x\<close> Inr t c False "1.prems"
          have rec: "ReadPacket_cmsgs remainder p1 w1 = (r, w')"
            by (simp add: ReadPacket_cmsgs.simps)
          from "1.IH" [OF False \<open>ParseOneSocketControlMessage dat = Return x\<close> Inr t [symmetric] _ c [symmetric] Return rec]
          show ?thesis using cw by simp
        qed
      qed
    qed
  qed
qed

lemma log_inv_cong:
  "logged w' = logged w \<Longrightarrow> invalidCmsgOnceV4 w' = invalidCmsgOnceV4 w \<Longrightarrow>
   invalidCmsgOnceV6 w' = invalidCmsgOnceV6 w \<Longrightarrow> log_inv w' = log_inv w"
  by (simp add: log_inv_def IPv4_lines_def IPv6_lines_def)

lemma ReadPacket_packet_world:
  assumes "ReadPacket_packet msg buf w = (r, w')"
  shows "rb_calls w' = rb_calls w" and "rb_script w' = rb_script w"
    and "log_inv w \<Longrightarrow> log_inv w'"
proof -
  have "rb_calls w' = rb_calls w \<and> rb_script w' = rb_script w \<and> (log_inv w \<longrightarrow> log_inv w')"
  proof (cases "slice_to (OOB msg) (NN msg)")
    case (Panic a)
    with assms show ?thesis by (simp add: ReadPacket_packet_def)
  next
    case d: (Return dat)
    show ?thesis
    proof (cases "Buffers msg = []")
      case True
      with d assms show ?thesis by (simp add: ReadPacket_packet_def)
    next
      case ne: False
      show ?thesis
      proof (cases "slice_to (Buffers msg ! 0) (N msg)")
        case (Panic a)
        with d ne assms show ?thesis by (simp add: ReadPacket_packet_def)
      next
        case (Return payload)
        let ?p = "\<lparr>remoteAddr = Addr msg, rcvTime = now w, data = payload,
                    buffer = buf, ecn = ECNUnsupported,
                    info = \<lparr>addr = Addr_zero, ifIndex = 0\<rparr>\<rparr>"
        obtain r1 w1 where l: "ReadPacket_cmsgs dat ?p w = (r1, w1)" by force
        from d ne Return l assms have "w' = w1"
          by (auto simp add: ReadPacket_packet_def Let_def split: exec.splits sum.splits)
        with ReadPacket_cmsgs_world [OF l] show ?thesis by simp
      qed
    qed
  qed
  then show "rb_calls w' = rb_calls w" "rb_script w' = rb_script w" "log_inv w \<Longrightarrow> log_inv w'"
    by simp_all
qed

lemma ReadPacket_message_result:
  assumes "ReadPacket_message c w = (r, c', w')"
  shows "(c' = c \<and> w' = w) \<or>
         (c' = c\<lparr>readPos := readPos c + 1\<rparr> \<and> unat (readPos c) < s_len (messages c))"
    and "rb_calls w' = rb_calls w" and "rb_script w' = rb_script w"
    and "log_inv w \<Longrightarrow> log_inv w'"
proof -
  show "(c' = c \<and> w' = w) \<or>
         (c' = c\<lparr>readPos := readPos c + 1\<rparr> \<and> unat (readPos c) < s_len (messages c))"
    using assms
    by (auto simp add: ReadPacket_message_def index_def split: if_splits prod.splits)
  have "rb_calls w' = rb_calls w \<and> rb_script w' = rb_script w \<and> (log_inv w \<longrightarrow> log_inv w')"
    using assms
    by (auto simp add: ReadPacket_message_def index_def split: if_splits prod.splits
        dest: ReadPacket_packet_world)
  then show "rb_calls w' = rb_calls w" "rb_script w' = rb_script w" "log_inv w \<Longrightarrow> log_inv w'"
    by simp_all
qed

lemma ReadPacket_batch_not_exhausted:
  "s_len (messages c) \<noteq> unat (readPos c) \<Longrightarrow> ReadPacket_batch c w = (None, c, w)"
  by (simp add: ReadPacket_batch_def)

text \<open>The block, once the data buffers are replaced and the receive call has answered.\<close>

lemma ReadPacket_batch_unfold:
  assumes "s_len (messages c) = unat (readPos c)"
    and "slice_to (messages c) batchSize = Return ms"
    and "ReadPacket_buffers [0..<unat (readPos c)] (c\<lparr>messages := ms\<rparr>) w = (None, c1, w1)"
    and "ReadBatch (messages (c1\<lparr>readPos := 0\<rparr>)) w1 = ((n, err), ms', w2)"
  shows "ReadPacket_batch c w =
      (if n = 0 \<or> err \<noteq> None
       then (Some (Return (zero_receivedPacket, err)), c1\<lparr>readPos := 0, messages := ms'\<rparr>, w2)
       else (case slice_to ms' n of
               Panic a \<Rightarrow> (Some (Panic a), c1\<lparr>readPos := 0, messages := ms'\<rparr>, w2)
             | Return ms'' \<Rightarrow> (None, c1\<lparr>readPos := 0, messages := ms''\<rparr>, w2)))"
  using assms by (simp add: ReadPacket_batch_def Let_def split: exec.splits)

lemma ReadPacket_batch_log:
  assumes "ReadPacket_batch c w = (r, c', w')"
  shows "log_inv w' = log_inv w"
proof (cases "s_len (messages c) = unat (readPos c)")
  case False
  with assms show ?thesis by (simp add: ReadPacket_batch_def)
next
  case True
  show ?thesis
  proof (cases "slice_to (messages c) batchSize")
    case (Panic a)
    with True assms show ?thesis by (simp add: ReadPacket_batch_def)
  next
    case (Return ms)
    obtain r1 c1 w1 where b: "ReadPacket_buffers [0..<unat (readPos c)] (c\<lparr>messages := ms\<rparr>) w = (r1, c1, w1)"
      by (cases "ReadPacket_buffers [0..<unat (readPos c)] (c\<lparr>messages := ms\<rparr>) w") auto
    note bw = ReadPacket_buffers_world [OF b]
    have l1: "log_inv w1 = log_inv w" by (rule log_inv_cong) (simp_all add: bw)
    show ?thesis
    proof (cases r1)
      case (Some a)
      with True Return b assms l1 show ?thesis by (simp add: ReadPacket_batch_def)
    next
      case None
      obtain n err ms' w2 where rb: "ReadBatch (messages (c1\<lparr>readPos := 0\<rparr>)) w1 = ((n, err), ms', w2)"
        by (cases "ReadBatch (messages (c1\<lparr>readPos := 0\<rparr>)) w1") auto
      have l2: "log_inv w2 = log_inv w1"
        by (rule log_inv_cong) (simp_all add: ReadBatch_shape(6,7,8) [OF rb])
      have "w' = w2"
        using assms unfolding ReadPacket_batch_unfold [OF True Return b [unfolded None] rb]
        by (cases "slice_to ms' n") (auto split: if_splits)
      with l1 l2 show ?thesis by simp
    qed
  qed
qed

lemma ReadPacket_batch_exhausted:
  assumes sh: "conn_shape c" and ex: "s_len (messages c) = unat (readPos c)"
    and run: "ReadPacket_batch c w = (r, c', w')"
  shows "conn_shape c'" and "readPos c' = 0" and "rb_calls w' = Suc (rb_calls w)"
    and "r = None \<Longrightarrow> 0 < s_len (messages c')"
    and "rb_n (rb_script w (rb_calls w)) = 0 \<or> rb_err (rb_script w (rb_calls w)) \<noteq> None \<Longrightarrow>
           r = Some (Return (zero_receivedPacket, rb_err (rb_script w (rb_calls w)))) \<and>
           s_len (messages c') = batchSize"
    and "cap c' = cap c"
proof -
  let ?ms = "\<lparr>s_arr = s_arr (messages c), s_len = batchSize\<rparr>"
  have st: "slice_to (messages c) batchSize = Return ?ms"
    using sh by (simp add: slice_to_def conn_shape_def)
  have pre: "\<forall>i\<in>set [0..<unat (readPos c)].
               i < length (buffers (c\<lparr>messages := ?ms\<rparr>)) \<and> i < s_len (messages (c\<lparr>messages := ?ms\<rparr>))"
    using sh ex by (auto simp add: conn_shape_def)
  have pre2: "s_len (messages (c\<lparr>messages := ?ms\<rparr>)) \<le> length (s_arr (messages (c\<lparr>messages := ?ms\<rparr>)))"
    using sh by (simp add: conn_shape_def cap_of_def)
  have pre3: "list_all (\<lambda>m. Buffers m \<noteq> []) (s_arr (messages (c\<lparr>messages := ?ms\<rparr>)))"
    using sh by (simp add: conn_shape_def)
  from ReadPacket_buffers_ok [OF pre pre2 pre3, of w] obtain c1 w1 where
    b: "ReadPacket_buffers [0..<unat (readPos c)] (c\<lparr>messages := ?ms\<rparr>) w = (None, c1, w1)"
    and c1: "cap c1 = cap c" "s_len (messages c1) = batchSize"
      "length (s_arr (messages c1)) = batchSize" "length (buffers c1) = batchSize"
      "list_all (\<lambda>m. Buffers m \<noteq> []) (s_arr (messages c1))"
    using sh by (auto simp add: conn_shape_def cap_of_def)
  note bw = ReadPacket_buffers_world [OF b]
  obtain n err ms' w2 where rb: "ReadBatch (messages (c1\<lparr>readPos := 0\<rparr>)) w1 = ((n, err), ms', w2)"
    by (cases "ReadBatch (messages (c1\<lparr>readPos := 0\<rparr>)) w1") auto
  note rbs = ReadBatch_shape [OF rb]
  have ms': "s_len ms' = batchSize" "length (s_arr ms') = batchSize"
    "list_all (\<lambda>m. Buffers m \<noteq> []) (s_arr ms')"
    using rbs(1,2,3) c1 by simp_all
  have calls: "rb_calls w2 = Suc (rb_calls w)" using rbs(4) bw by simp
  have n: "n = rb_n (rb_script w (rb_calls w))" and err: "err = rb_err (rb_script w (rb_calls w))"
    using rbs(9,10) bw by simp_all
  let ?c3 = "c1\<lparr>readPos := 0, messages := ms'\<rparr>"
  note unf = ReadPacket_batch_unfold [OF ex st b rb]
  have all: "conn_shape c' \<and> readPos c' = 0 \<and> rb_calls w' = Suc (rb_calls w) \<and>
        (r = None \<longrightarrow> 0 < s_len (messages c')) \<and> cap c' = cap c \<and>
        (n = 0 \<or> err \<noteq> None \<longrightarrow> r = Some (Return (zero_receivedPacket, err)) \<and> s_len (messages c') = batchSize)"
    using run unf ms' c1 calls
    by (auto simp add: conn_shape_def cap_of_def slice_to_def split: if_splits)
  then show "conn_shape c'" "readPos c' = 0" "rb_calls w' = Suc (rb_calls w)"
    "r = None \<Longrightarrow> 0 < s_len (messages c')" "cap c' = cap c"
    by simp_all
  from all n err show "rb_n (rb_script w (rb_calls w)) = 0 \<or> rb_err (rb_script w (rb_calls w)) \<noteq> None \<Longrightarrow>
           r = Some (Return (zero_receivedPacket, rb_err (rb_script w (rb_calls w)))) \<and>
           s_len (messages c') = batchSize"
    by simp
qed

lemma unat_uint8_Suc: "unat (x::uint8) < 255 \<Longrightarrow> unat (x + 1) = Suc (unat x)"
  by (simp add: unat_word_ariths)

lemma ReadPacket_message_inv:
  assumes sh: "conn_shape c" and cur: "cursor_inv c" and run: "ReadPacket_message c w = (r, c', w')"
  shows "conn_shape c'" and "cursor_inv c'"
proof -
  from ReadPacket_message_result(1) [OF run]
  have "conn_shape c' \<and> cursor_inv c'"
  proof
    assume "c' = c \<and> w' = w"
    with sh cur show ?thesis by simp
  next
    assume a: "c' = c\<lparr>readPos := readPos c + 1\<rparr> \<and> unat (readPos c) < s_len (messages c)"
    with sh have "unat (readPos c) < 255" by (simp add: conn_shape_def batchSize_def)
    with a sh show ?thesis
      by (simp add: conn_shape_def cursor_inv_def unat_uint8_Suc)
  qed
  then show "conn_shape c'" "cursor_inv c'" by simp_all
qed

lemma ReadPacket_inv:
  assumes sh: "conn_shape c" and cur: "cursor_inv c" and run: "ReadPacket c w = (r, c', w')"
  shows "conn_shape c'" and "cursor_inv c'"
    and "rb_calls w' = (if s_len (messages c) = unat (readPos c) then Suc (rb_calls w) else rb_calls w)"
proof -
  obtain r1 c1 w1 where b: "ReadPacket_batch c w = (r1, c1, w1)"
    by (cases "ReadPacket_batch c w") auto
  have "conn_shape c' \<and> cursor_inv c' \<and>
        rb_calls w' = (if s_len (messages c) = unat (readPos c) then Suc (rb_calls w) else rb_calls w)"
  proof (cases "s_len (messages c) = unat (readPos c)")
    case False
    with b have e: "r1 = None" "c1 = c" "w1 = w" by (simp_all add: ReadPacket_batch_not_exhausted)
    with run b have m: "ReadPacket_message c w = (r, c', w')" by (simp add: ReadPacket_def)
    from ReadPacket_message_inv [OF sh cur m] ReadPacket_message_result(2) [OF m] False
    show ?thesis by simp
  next
    case True
    note be = ReadPacket_batch_exhausted [OF sh True b]
    have cur1: "cursor_inv c1" using be(2) by (simp add: cursor_inv_def)
    show ?thesis
    proof (cases r1)
      case (Some x)
      with run b have "c' = c1" "w' = w1" by (simp_all add: ReadPacket_def)
      with be cur1 True show ?thesis by simp
    next
      case None
      with run b have m: "ReadPacket_message c1 w1 = (r, c', w')" by (simp add: ReadPacket_def)
      from ReadPacket_message_inv [OF be(1) cur1 m] ReadPacket_message_result(2) [OF m] be(3) True
      show ?thesis by simp
    qed
  qed
  then show "conn_shape c'" "cursor_inv c'"
    "rb_calls w' = (if s_len (messages c) = unat (readPos c) then Suc (rb_calls w) else rb_calls w)"
    by simp_all
qed

lemma ReadPacket_log_inv:
  assumes "ReadPacket c w = (r, c', w')" and "log_inv w"
  shows "log_inv w'"
proof -
  obtain r1 c1 w1 where b: "ReadPacket_batch c w = (r1, c1, w1)"
    by (cases "ReadPacket_batch c w") auto
  from ReadPacket_batch_log [OF b] assms(2) have l1: "log_inv w1" by simp
  show ?thesis
  proof (cases r1)
    case (Some x)
    with assms(1) b l1 show ?thesis by (simp add: ReadPacket_def)
  next
    case None
    with assms(1) b have m: "ReadPacket_message c1 w1 = (r, c', w')" by (simp add: ReadPacket_def)
    from ReadPacket_message_result(4) [OF m l1] show ?thesis .
  qed
qed

lemma newConn_shape:
  assumes "newConn env df = Return (Inr c)"
  shows "conn_shape c" and "cursor_inv c" and "s_len (messages c) = unat (readPos c)"
  using assms
  by (auto simp add: newConn_def conn_shape_def cursor_inv_def cap_of_def batchSize_def Let_def
      split: option.splits if_splits exec.splits net_Addr.splits)

lemma ReadPacket_calls_inv:
  assumes "conn_shape c" and "cursor_inv c" and "ReadPacket_calls n c w = (c', w')"
  shows "conn_shape c' \<and> cursor_inv c'"
  using assms
proof (induction n arbitrary: c w)
  case 0
  then show ?case by simp
next
  case (Suc n)
  obtain r c1 w1 where s: "ReadPacket c w = (r, c1, w1)"
    by (cases "ReadPacket c w") auto
  from Suc.prems(3) s have rest: "ReadPacket_calls n c1 w1 = (c', w')" by simp
  from ReadPacket_inv(1,2) [OF Suc.prems(1,2) s] Suc.IH rest show ?case by blast
qed

lemma ReadPacket_calls_log_inv:
  assumes "log_inv w" and "ReadPacket_calls n c w = (c', w')"
  shows "log_inv w'"
  using assms
proof (induction n arbitrary: c w)
  case 0
  then show ?case by simp
next
  case (Suc n)
  obtain r c1 w1 where s: "ReadPacket c w = (r, c1, w1)"
    by (cases "ReadPacket c w") auto
  from Suc.prems(2) s have rest: "ReadPacket_calls n c1 w1 = (c', w')" by simp
  from ReadPacket_log_inv [OF s Suc.prems(1)] Suc.IH rest show ?case by blast
qed

section \<open>The batch cursor\<close>

text \<open>
  C6. Start from any connection that \<open>newConn\<close> returns and make any number of
  \<open>ReadPacket\<close> calls, against any answers of the receive call. Before the next call
  and after it, \<open>0 \<le> readPos \<le> len(messages)\<close> holds, and that call issues the batched
  receive (exactly once) if and only if \<open>readPos = len(messages)\<close> when it is entered;
  otherwise it issues none. A call that panics counts too: the connection is then as
  the call left it.
\<close>

theorem cursor_invariant:
  assumes "newConn env supportsDF = Return (Inr c0)"
    and "ReadPacket_calls n c0 w0 = (c, w)"
    and "ReadPacket c w = (r, c', w')"
  shows "cursor_inv c \<and> cursor_inv c' \<and>
         (rb_calls w' = Suc (rb_calls w) \<longleftrightarrow> s_len (messages c) = unat (readPos c)) \<and>
         (rb_calls w' = rb_calls w \<longleftrightarrow> s_len (messages c) \<noteq> unat (readPos c))"
proof -
  note fresh = newConn_shape [OF assms(1)]
  from ReadPacket_calls_inv [OF fresh(1,2) assms(2)]
  have inv: "conn_shape c" "cursor_inv c" by simp_all
  from ReadPacket_inv [OF inv assms(3)] inv show ?thesis by simp
qed

theorem cursor_invariant_witness:
  "newConn example_env True = Return (Inr fresh_conn) \<and>
   cursor_inv (fst (ReadPacket_calls 2 fresh_conn (start_world (\<lambda>k. one_datagram [])))) \<and>
   s_len (messages (fst (ReadPacket_calls 2 fresh_conn (start_world (\<lambda>k. one_datagram []))))) =
     unat (readPos (fst (ReadPacket_calls 2 fresh_conn (start_world (\<lambda>k. one_datagram []))))) \<and>
   rb_calls (snd (ReadPacket_calls 2 fresh_conn (start_world (\<lambda>k. one_datagram [])))) = 2 \<and>
   rb_calls (snd (snd (ReadPacket (fst (ReadPacket_calls 2 fresh_conn (start_world (\<lambda>k. one_datagram []))))
                       (snd (ReadPacket_calls 2 fresh_conn (start_world (\<lambda>k. one_datagram []))))))) = 3"
proof -
  let ?X = "ReadPacket_calls 2 fresh_conn (start_world (\<lambda>k. one_datagram []))"
  let ?Y = "ReadPacket (fst ?X) (snd ?X)"
  have e: "s_len (messages (fst ?X)) = unat (readPos (fst ?X))" "rb_calls (snd ?X) = 2"
    by code_simp+
  from cursor_invariant [OF newConn_example, of 2 "start_world (\<lambda>k. one_datagram [])" "fst ?X" "snd ?X"
      "fst ?Y" "fst (snd ?Y)" "snd (snd ?Y)"]
  show ?thesis using e newConn_example by simp
qed

section \<open>The chain of control messages\<close>

text \<open>
  Where the four bytes of the length field lie inside the array and the buffer is not
  empty, a declared length below the header size or above the length of the buffer
  gives \<open>EINVAL\<close>.
\<close>

lemma ParseOne_bad_length:
  assumes "0 < s_len b" and "4 \<le> cap_of b"
    and "unat (uint32_of_bytes (take 4 (s_arr b))) < 12 \<or>
         s_len b < unat (uint32_of_bytes (take 4 (s_arr b)))"
  shows "ParseOneSocketControlMessage b = Return (Inl EINVAL)"
  using assms
  by (auto simp add: ParseOneSocketControlMessage_def socketControlMessageHeaderAndData_def
      Let_def ucast_less_cmsgSize)

lemma ParseOne_error: "ParseOneSocketControlMessage b = Return (Inl e) \<Longrightarrow> e = EINVAL"
  by (auto simp add: ParseOneSocketControlMessage_def socketControlMessageHeaderAndData_def Let_def
      split: exec.splits sum.splits if_splits prod.splits)

lemma ParseOne_nonempty:
  "ParseOneSocketControlMessage b = Return (Inr (h, d, rm)) \<Longrightarrow> s_len b \<noteq> 0"
  by (cases "s_len b = 0")
     (simp_all add: ParseOneSocketControlMessage_def socketControlMessageHeaderAndData_def)

lemma ReadPacket_cmsgs_step:
  assumes "ParseOneSocketControlMessage dat = Return (Inr (hdr, body, remainder))"
    and "ReadPacket_cmsg hdr body p w = (Return p1, w1)"
  shows "ReadPacket_cmsgs dat p w = ReadPacket_cmsgs remainder p1 w1"
  using assms ParseOne_nonempty [OF assms(1)]
  by (subst ReadPacket_cmsgs.simps) simp

lemma ReadPacket_cmsgs_error:
  "ReadPacket_cmsgs dat p w = (Return (Inl e), w') \<Longrightarrow> e = EINVAL"
proof (induction dat p w rule: ReadPacket_cmsgs.induct)
  case (1 dat p w)
  show ?case
  proof (cases "s_len dat = 0")
    case True
    with "1.prems" show ?thesis by (simp add: ReadPacket_cmsgs.simps)
  next
    case False
    show ?thesis
    proof (cases "ParseOneSocketControlMessage dat")
      case (Panic a)
      with False "1.prems" show ?thesis by (simp add: ReadPacket_cmsgs.simps)
    next
      case (Return x)
      show ?thesis
      proof (cases x)
        case (Inl err)
        with Return False "1.prems" ParseOne_error [of dat err] show ?thesis
          by (simp add: ReadPacket_cmsgs.simps)
      next
        case (Inr t)
        obtain hdr body remainder where t: "t = (hdr, body, remainder)" by (cases t)
        obtain r1 w1 where c: "ReadPacket_cmsg hdr body p w = (r1, w1)" by force
        show ?thesis
        proof (cases r1)
          case (Panic a)
          with Return Inr t c False "1.prems" show ?thesis
            by (simp add: ReadPacket_cmsgs.simps)
        next
          case (Return p1)
          with \<open>ParseOneSocketControlMessage dat = Return x\<close> Inr t c False "1.prems"
          have rec: "ReadPacket_cmsgs remainder p1 w1 = (Return (Inl e), w')"
            by (simp add: ReadPacket_cmsgs.simps)
          from "1.IH" [OF False \<open>ParseOneSocketControlMessage dat = Return x\<close> Inr t [symmetric] _ c [symmetric] Return rec]
          show ?thesis by simp
        qed
      qed
    qed
  qed
qed



lemma ReadPacket_cmsg_IPv4_mismatch:
  assumes "Level hdr = IPPROTO_IP" and "Type hdr = IP_PKTINFO" and "s_len body \<noteq> 8"
  shows "ReadPacket_cmsg hdr body p w = (Return p, invalidCmsgOnceV4_Do body w)"
  using assms
  by (simp add: ReadPacket_cmsg_def ReadPacket_IPv4_def ReadPacket_IPv6_def parseIPv4PktInfo_def
      IPPROTO_IP_def IPPROTO_IPV6_def IP_TOS_def IP_PKTINFO_def)

lemma ReadPacket_cmsg_IPv6_mismatch:
  assumes "Level hdr = IPPROTO_IPV6" and "Type hdr = IPV6_PKTINFO" and "s_len body \<noteq> 20"
  shows "ReadPacket_cmsg hdr body p w = (Return p, invalidCmsgOnceV6_Do body w)"
  using assms
  by (simp add: ReadPacket_cmsg_def ReadPacket_IPv4_def ReadPacket_IPv6_def
      IPPROTO_IP_def IPPROTO_IPV6_def IPV6_RECVTCLASS_def IPV6_PKTINFO_def)

lemma log_inv_bounds: "log_inv w \<Longrightarrow> IPv4_lines w \<le> 1 \<and> IPv6_lines w \<le> 1"
  by (auto simp add: log_inv_def split: if_splits)

lemma ReadPacket_packet_single_mismatch:
  assumes "slice_to (OOB msg) (NN msg) = Return dat" and "Buffers msg \<noteq> []"
    and "slice_to (Buffers msg ! 0) (N msg) = Return payload"
    and "ParseOneSocketControlMessage dat = Return (Inr (hdr, body, remainder))"
    and "s_len remainder = 0"
    and "(Level hdr = IPPROTO_IP \<and> Type hdr = IP_PKTINFO \<and> s_len body \<noteq> 8) \<or>
         (Level hdr = IPPROTO_IPV6 \<and> Type hdr = IPV6_PKTINFO \<and> s_len body \<noteq> 20)"
  shows "\<exists>pk w1. ReadPacket_packet msg buf w = (Return (pk, None), w1) \<and>
           info pk = \<lparr>addr = Addr_zero, ifIndex = 0\<rparr> \<and> data pk = payload"
proof -
  let ?p = "\<lparr>remoteAddr = Addr msg, rcvTime = now w, data = payload,
              buffer = buf, ecn = ECNUnsupported,
              info = \<lparr>addr = Addr_zero, ifIndex = 0\<rparr>\<rparr>"
  from assms(6) obtain w1 where one: "ReadPacket_cmsg hdr body ?p w = (Return ?p, w1)"
    using ReadPacket_cmsg_IPv4_mismatch [of hdr body ?p w]
      ReadPacket_cmsg_IPv6_mismatch [of hdr body ?p w] by blast
  have "ReadPacket_cmsgs remainder ?p w1 = (Return (Inr ?p), w1)"
    using assms(5) by (simp add: ReadPacket_cmsgs.simps)
  with ReadPacket_cmsgs_step [OF assms(4) one]
  have "ReadPacket_cmsgs dat ?p w = (Return (Inr ?p), w1)" by simp
  with assms(1,2,3) have "ReadPacket_packet msg buf w = (Return (?p, None), w1)"
    by (simp add: ReadPacket_packet_def)
  then show ?thesis by simp
qed

text \<open>
  C8. A packet-info record whose payload is not of the expected size (8 bytes at level
  \<open>IPPROTO_IP\<close>, 20 bytes at level \<open>IPPROTO_IPV6\<close>) makes no call fail: handling it
  returns the packet unchanged, so that its \<open>info\<close> field stays unset, and the loop goes on
  with the rest of the chain; the only effect is that of the \<open>sync.Once\<close> of the address
  family. A message whose ancillary data is just such a record becomes a packet, returned
  with a nil error, whose \<open>info\<close> is the zero value. And whatever is received, after any number of \<open>ReadPacket\<close> calls from a world
  whose log agrees with the two \<open>Once\<close> values (as at the start of the process), the log
  holds at most one diagnostic of each address family.
\<close>

theorem pktinfo_length_mismatch:
  "(ParseOneSocketControlMessage dat = Return (Inr (hdr, body, remainder)) \<and>
    Level hdr = IPPROTO_IP \<and> Type hdr = IP_PKTINFO \<and> s_len body \<noteq> 8 \<longrightarrow>
      ReadPacket_cmsg hdr body p w = (Return p, invalidCmsgOnceV4_Do body w) \<and>
      ReadPacket_cmsgs dat p w = ReadPacket_cmsgs remainder p (invalidCmsgOnceV4_Do body w)) \<and>
   (ParseOneSocketControlMessage dat = Return (Inr (hdr, body, remainder)) \<and>
    Level hdr = IPPROTO_IPV6 \<and> Type hdr = IPV6_PKTINFO \<and> s_len body \<noteq> 20 \<longrightarrow>
      ReadPacket_cmsg hdr body p w = (Return p, invalidCmsgOnceV6_Do body w) \<and>
      ReadPacket_cmsgs dat p w = ReadPacket_cmsgs remainder p (invalidCmsgOnceV6_Do body w)) \<and>
   (slice_to (OOB msg) (NN msg) = Return dat \<and> Buffers msg \<noteq> [] \<and>
    slice_to (Buffers msg ! 0) (N msg) = Return payload \<and>
    ParseOneSocketControlMessage dat = Return (Inr (hdr, body, remainder)) \<and>
    s_len remainder = 0 \<and>
    ((Level hdr = IPPROTO_IP \<and> Type hdr = IP_PKTINFO \<and> s_len body \<noteq> 8) \<or>
     (Level hdr = IPPROTO_IPV6 \<and> Type hdr = IPV6_PKTINFO \<and> s_len body \<noteq> 20)) \<longrightarrow>
      (\<exists>pk w1. ReadPacket_packet msg buf w = (Return (pk, None), w1) \<and>
         info pk = \<lparr>addr = Addr_zero, ifIndex = 0\<rparr> \<and> data pk = payload)) \<and>
   (log_inv w0 \<and> ReadPacket_calls n c w0 = (c', w') \<longrightarrow>
      IPv4_lines w' \<le> 1 \<and> IPv6_lines w' \<le> 1)"
proof (intro conjI impI)
  assume a: "ParseOneSocketControlMessage dat = Return (Inr (hdr, body, remainder)) \<and>
    Level hdr = IPPROTO_IP \<and> Type hdr = IP_PKTINFO \<and> s_len body \<noteq> 8"
  then have one: "ReadPacket_cmsg hdr body p w = (Return p, invalidCmsgOnceV4_Do body w)"
    by (simp add: ReadPacket_cmsg_IPv4_mismatch)
  then show "ReadPacket_cmsg hdr body p w = (Return p, invalidCmsgOnceV4_Do body w)" .
  from a have "ParseOneSocketControlMessage dat = Return (Inr (hdr, body, remainder))" by simp
  from ReadPacket_cmsgs_step [OF this one]
  show "ReadPacket_cmsgs dat p w = ReadPacket_cmsgs remainder p (invalidCmsgOnceV4_Do body w)" .
next
  assume a: "ParseOneSocketControlMessage dat = Return (Inr (hdr, body, remainder)) \<and>
    Level hdr = IPPROTO_IPV6 \<and> Type hdr = IPV6_PKTINFO \<and> s_len body \<noteq> 20"
  then have one: "ReadPacket_cmsg hdr body p w = (Return p, invalidCmsgOnceV6_Do body w)"
    by (simp add: ReadPacket_cmsg_IPv6_mismatch)
  then show "ReadPacket_cmsg hdr body p w = (Return p, invalidCmsgOnceV6_Do body w)" .
  from a have "ParseOneSocketControlMessage dat = Return (Inr (hdr, body, remainder))" by simp
  from ReadPacket_cmsgs_step [OF this one]
  show "ReadPacket_cmsgs dat p w = ReadPacket_cmsgs remainder p (invalidCmsgOnceV6_Do body w)" .
next
  assume "slice_to (OOB msg) (NN msg) = Return dat \<and> Buffers msg \<noteq> [] \<and>
    slice_to (Buffers msg ! 0) (N msg) = Return payload \<and>
    ParseOneSocketControlMessage dat = Return (Inr (hdr, body, remainder)) \<and>
    s_len remainder = 0 \<and>
    ((Level hdr = IPPROTO_IP \<and> Type hdr = IP_PKTINFO \<and> s_len body \<noteq> 8) \<or>
     (Level hdr = IPPROTO_IPV6 \<and> Type hdr = IPV6_PKTINFO \<and> s_len body \<noteq> 20))"
  then show "\<exists>pk w1. ReadPacket_packet msg buf w = (Return (pk, None), w1) \<and>
         info pk = \<lparr>addr = Addr_zero, ifIndex = 0\<rparr> \<and> data pk = payload"
    using ReadPacket_packet_single_mismatch [of msg dat payload hdr body remainder buf w]
    by blast
next
  assume "log_inv w0 \<and> ReadPacket_calls n c w0 = (c', w')"
  then have "log_inv w'" using ReadPacket_calls_log_inv by blast
  then show "IPv4_lines w' \<le> 1" "IPv6_lines w' \<le> 1" using log_inv_bounds by simp_all
qed

theorem pktinfo_length_mismatch_witness:
  "ParseOneSocketControlMessage \<lparr>s_arr = short_IPv4_pktinfo, s_len = 19\<rparr> =
     Return (Inr (\<lparr>Len = 19, Level = IPPROTO_IP, Type = IP_PKTINFO\<rparr>,
                  \<lparr>s_arr = drop 12 short_IPv4_pktinfo, s_len = 7\<rparr>, nil_slice)) \<and>
   ReadPacket_cmsgs \<lparr>s_arr = short_IPv4_pktinfo, s_len = 19\<rparr> zero_receivedPacket
       (start_world (\<lambda>k. one_datagram short_IPv4_pktinfo)) =
     (Return (Inr zero_receivedPacket),
      invalidCmsgOnceV4_Do \<lparr>s_arr = drop 12 short_IPv4_pktinfo, s_len = 7\<rparr>
        (start_world (\<lambda>k. one_datagram short_IPv4_pktinfo))) \<and>
   ParseOneSocketControlMessage \<lparr>s_arr = short_IPv6_pktinfo, s_len = 19\<rparr> =
     Return (Inr (\<lparr>Len = 19, Level = IPPROTO_IPV6, Type = IPV6_PKTINFO\<rparr>,
                  \<lparr>s_arr = drop 12 short_IPv6_pktinfo, s_len = 7\<rparr>, nil_slice)) \<and>
   ReadPacket_cmsgs \<lparr>s_arr = short_IPv6_pktinfo, s_len = 19\<rparr> zero_receivedPacket
       (start_world (\<lambda>k. one_datagram short_IPv4_pktinfo)) =
     (Return (Inr zero_receivedPacket),
      invalidCmsgOnceV6_Do \<lparr>s_arr = drop 12 short_IPv6_pktinfo, s_len = 7\<rparr>
        (start_world (\<lambda>k. one_datagram short_IPv4_pktinfo))) \<and>
   log_inv (start_world (\<lambda>k. one_datagram short_IPv4_pktinfo)) \<and>
   (case fst (ReadPacket fresh_conn (start_world (\<lambda>k. one_datagram short_IPv4_pktinfo))) of
      Return (pk, e) \<Rightarrow> e = None \<and> info pk = \<lparr>addr = Addr_zero, ifIndex = 0\<rparr>
    | Panic a \<Rightarrow> False) \<and>
   IPv4_lines (snd (ReadPacket_calls 3 fresh_conn (start_world (\<lambda>k. one_datagram short_IPv4_pktinfo)))) = 1 \<and>
   IPv6_lines (snd (ReadPacket_calls 3 fresh_conn (start_world (\<lambda>k. one_datagram short_IPv4_pktinfo)))) = 0"
proof -
  let ?W = "start_world (\<lambda>k. one_datagram short_IPv4_pktinfo)"
  let ?b4 = "\<lparr>s_arr = drop 12 short_IPv4_pktinfo, s_len = 7\<rparr>"
  let ?b6 = "\<lparr>s_arr = drop 12 short_IPv6_pktinfo, s_len = 7\<rparr>"
  let ?h4 = "\<lparr>Len = 19, Level = IPPROTO_IP, Type = IP_PKTINFO\<rparr>"
  let ?h6 = "\<lparr>Len = 19, Level = IPPROTO_IPV6, Type = IPV6_PKTINFO\<rparr>"
  let ?X = "ReadPacket_calls 3 fresh_conn ?W"
  have p4: "ParseOneSocketControlMessage \<lparr>s_arr = short_IPv4_pktinfo, s_len = 19\<rparr> =
     Return (Inr (?h4, ?b4, nil_slice))"
    by code_simp
  have p6: "ParseOneSocketControlMessage \<lparr>s_arr = short_IPv6_pktinfo, s_len = 19\<rparr> =
     Return (Inr (?h6, ?b6, nil_slice))"
    by code_simp
  have nil: "\<And>pk w. ReadPacket_cmsgs nil_slice pk w = (Return (Inr pk), w)"
    by (simp add: ReadPacket_cmsgs.simps nil_slice_def)
  have l: "log_inv ?W"
    by (simp add: log_inv_def start_world_def IPv4_lines_def IPv6_lines_def)
  have r: "case fst (ReadPacket fresh_conn ?W) of
      Return (pk, e) \<Rightarrow> e = None \<and> info pk = \<lparr>addr = Addr_zero, ifIndex = 0\<rparr>
    | Panic a \<Rightarrow> False"
    by code_simp
  have n: "IPv4_lines (snd ?X) = 1" "IPv6_lines (snd ?X) = 0"
    by code_simp+
  note t4 = pktinfo_length_mismatch [where dat = "\<lparr>s_arr = short_IPv4_pktinfo, s_len = 19\<rparr>"
      and hdr = ?h4 and body = ?b4 and remainder = nil_slice and p = zero_receivedPacket
      and w = ?W and ?w0.0 = ?W and n = 3 and c = fresh_conn and c' = "fst ?X" and w' = "snd ?X",
      THEN conjunct1]
  note t6 = pktinfo_length_mismatch [where dat = "\<lparr>s_arr = short_IPv6_pktinfo, s_len = 19\<rparr>"
      and hdr = ?h6 and body = ?b6 and remainder = nil_slice and p = zero_receivedPacket
      and w = ?W and ?w0.0 = ?W and n = 3 and c = fresh_conn and c' = "fst ?X" and w' = "snd ?X",
      THEN conjunct2, THEN conjunct1]
  from t4 t6 p4 p6 l r n show ?thesis
    by (simp add: nil)
qed

section \<open>A malformed chain\<close>

lemma ReadPacket_packet_error:
  assumes "ReadPacket_packet msg buf w = (Return (pk, Some err), w')"
  shows "err = EINVAL \<and> pk = zero_receivedPacket \<and>
         (\<exists>dat payload. slice_to (OOB msg) (NN msg) = Return dat \<and>
            slice_to (Buffers msg ! 0) (N msg) = Return payload \<and>
            ReadPacket_cmsgs dat \<lparr>remoteAddr = Addr msg, rcvTime = now w, data = payload,
                                  buffer = buf, ecn = ECNUnsupported,
                                  info = \<lparr>addr = Addr_zero, ifIndex = 0\<rparr>\<rparr> w
              = (Return (Inl EINVAL), w'))"
proof (cases "slice_to (OOB msg) (NN msg)")
  case (Panic a)
  with assms show ?thesis by (simp add: ReadPacket_packet_def)
next
  case d: (Return dat)
  show ?thesis
  proof (cases "Buffers msg = []")
    case True
    with d assms show ?thesis by (simp add: ReadPacket_packet_def)
  next
    case ne: False
    show ?thesis
    proof (cases "slice_to (Buffers msg ! 0) (N msg)")
      case (Panic a)
      with d ne assms show ?thesis by (simp add: ReadPacket_packet_def)
    next
      case (Return payload)
      let ?p = "\<lparr>remoteAddr = Addr msg, rcvTime = now w, data = payload,
                  buffer = buf, ecn = ECNUnsupported,
                  info = \<lparr>addr = Addr_zero, ifIndex = 0\<rparr>\<rparr>"
      obtain r1 w1 where l: "ReadPacket_cmsgs dat ?p w = (r1, w1)" by force
      from d ne Return l assms have "r1 = Return (Inl err) \<and> w1 = w' \<and> pk = zero_receivedPacket"
        by (auto simp add: ReadPacket_packet_def Let_def split: exec.splits sum.splits)
      with l ReadPacket_cmsgs_error [of dat ?p w err w'] d Return show ?thesis by simp
    qed
  qed
qed

text \<open>
  When a call of \<open>ReadPacket\<close> gets to a message of the batch and the code after that
  returns an error, the error is \<open>EINVAL\<close> from the parse of the chain of that message,
  the packet returned with it is the zero packet, and the connection is left as a
  successful read of the message leaves it: the cursor is one further and nothing else
  has changed.
\<close>

lemma ReadPacket_error_return:
  assumes "conn_shape c" and "cursor_inv c"
    and "ReadPacket_batch c w = (None, c1, w1)"
    and "ReadPacket_message c1 w1 = (Return (pk, Some err), c', w')"
  shows "ReadPacket c w = (Return (zero_receivedPacket, Some EINVAL), c', w') \<and>
         (\<exists>msg dat p. index (messages c1) (unat (readPos c1)) = Return msg \<and>
            slice_to (OOB msg) (NN msg) = Return dat \<and>
            ReadPacket_cmsgs dat p w1 = (Return (Inl EINVAL), w')) \<and>
         c' = c1\<lparr>readPos := readPos c1 + 1\<rparr> \<and>
         unat (readPos c') = Suc (unat (readPos c1)) \<and>
         conn_shape c' \<and> cursor_inv c' \<and>
         (\<forall>r2 c2 w2. ReadPacket c' w' = (r2, c2, w2) \<longrightarrow>
            conn_shape c2 \<and> cursor_inv c2 \<and>
            rb_calls w2 = (if unat (readPos c') = s_len (messages c1) then Suc (rb_calls w')
                           else rb_calls w')) \<and>
         (unat (readPos c') \<noteq> s_len (messages c1) \<longrightarrow>
            ReadPacket c' w' = ReadPacket_message c' w')"
proof -
  have run: "ReadPacket c w = (Return (pk, Some err), c', w')"
    using assms(3,4) by (simp add: ReadPacket_def)
  obtain msg where msg: "index (messages c1) (unat (readPos c1)) = Return msg"
    and inb: "unat (readPos c1) < length (buffers c1)"
    and pkt: "ReadPacket_packet msg (buffers c1 ! unat (readPos c1)) w1 = (Return (pk, Some err), w')"
    and c': "c' = c1\<lparr>readPos := readPos c1 + 1\<rparr>"
    using assms(4)
    by (auto simp add: ReadPacket_message_def split: exec.splits if_splits prod.splits)
  note pe = ReadPacket_packet_error [OF pkt]
  have lt: "unat (readPos c1) < s_len (messages c1)"
    using msg by (simp add: index_def split: if_splits)
  have inv': "conn_shape c'" "cursor_inv c'"
    using ReadPacket_inv(1,2) [OF assms(1,2) run] by simp_all
  have "unat (readPos c1) < 255"
    using inb inv'(1) c' by (simp add: conn_shape_def batchSize_def)
  then have suc: "unat (readPos c') = Suc (unat (readPos c1))"
    using c' by (simp add: unat_uint8_Suc)
  have len: "s_len (messages c') = s_len (messages c1)" using c' by simp
  have nxt: "\<forall>r2 c2 w2. ReadPacket c' w' = (r2, c2, w2) \<longrightarrow>
            conn_shape c2 \<and> cursor_inv c2 \<and>
            rb_calls w2 = (if unat (readPos c') = s_len (messages c1) then Suc (rb_calls w')
                           else rb_calls w')"
  proof (intro allI impI)
    fix r2 c2 w2 assume n: "ReadPacket c' w' = (r2, c2, w2)"
    from ReadPacket_inv [OF inv' n] len
    show "conn_shape c2 \<and> cursor_inv c2 \<and>
            rb_calls w2 = (if unat (readPos c') = s_len (messages c1) then Suc (rb_calls w')
                           else rb_calls w')"
      by auto
  qed
  have msgcall: "unat (readPos c') \<noteq> s_len (messages c1) \<longrightarrow>
            ReadPacket c' w' = ReadPacket_message c' w'"
    using len by (simp add: ReadPacket_def ReadPacket_batch_not_exhausted)
  from run pe msg c' suc inv' nxt msgcall show ?thesis by blast
qed

text \<open>
  A message whose first record declares a length below the header size or above the
  length of the ancillary data: the call returns \<open>EINVAL\<close> with the zero packet.
\<close>

lemma ReadPacket_packet_first_record_malformed:
  assumes "slice_to (OOB msg) (NN msg) = Return dat" and "0 < NN msg"
    and "4 \<le> cap_of (OOB msg)" and "Buffers msg \<noteq> []"
    and "slice_to (Buffers msg ! 0) (N msg) = Return payload"
    and "unat (uint32_of_bytes (take 4 (s_arr (OOB msg)))) < 12 \<or>
         NN msg < unat (uint32_of_bytes (take 4 (s_arr (OOB msg))))"
  shows "ReadPacket_packet msg buf w = (Return (zero_receivedPacket, Some EINVAL), w)"
proof -
  from assms(1) have d: "dat = \<lparr>s_arr = s_arr (OOB msg), s_len = NN msg\<rparr>"
    by (simp add: slice_to_def split: if_splits)
  have "ParseOneSocketControlMessage dat = Return (Inl EINVAL)"
    using assms(2,3,6) by (intro ParseOne_bad_length) (simp_all add: d cap_of_def)
  then have "\<And>p. ReadPacket_cmsgs dat p w = (Return (Inl EINVAL), w)"
    using assms(2) by (subst ReadPacket_cmsgs.simps) (simp add: d)
  with assms(1,4,5) show ?thesis
    by (simp add: ReadPacket_packet_def)
qed

section \<open>Where the code leaves the specification\<close>

subsection \<open>A failed receive\<close>

text \<open>
  When the batch is exhausted and the receive call brings no message or an error,
  \<open>ReadPacket\<close> returns the zero packet with the error of the receive call (nil when the
  call only brought no message). But the block has already re-sliced \<open>messages\<close> to
  \<open>batchSize\<close> and set \<open>readPos\<close> to 0, and the early return leaves them so: the cursor is
  not at the end of the batch.
\<close>

lemma ReadPacket_failed_receive:
  assumes "conn_shape c" and "s_len (messages c) = unat (readPos c)"
    and "rb_n (rb_script w (rb_calls w)) = 0 \<or> rb_err (rb_script w (rb_calls w)) \<noteq> None"
    and "ReadPacket c w = (r, c', w')"
  shows "r = Return (zero_receivedPacket, rb_err (rb_script w (rb_calls w)))"
    and "readPos c' = 0" and "s_len (messages c') = batchSize"
    and "s_len (messages c') \<noteq> unat (readPos c')"
proof -
  obtain r1 c1 w1 where b: "ReadPacket_batch c w = (r1, c1, w1)"
    by (cases "ReadPacket_batch c w") auto
  note be = ReadPacket_batch_exhausted [OF assms(1,2) b]
  from be(5) [OF assms(3)] have r1: "r1 = Some (Return (zero_receivedPacket, rb_err (rb_script w (rb_calls w))))"
    and l: "s_len (messages c1) = batchSize" by simp_all
  from assms(4) b r1 have e: "r = Return (zero_receivedPacket, rb_err (rb_script w (rb_calls w)))" "c' = c1"
    by (simp_all add: ReadPacket_def)
  from e be(2) l show "r = Return (zero_receivedPacket, rb_err (rb_script w (rb_calls w)))"
    "readPos c' = 0" "s_len (messages c') = batchSize" "s_len (messages c') \<noteq> unat (readPos c')"
    by (simp_all add: batchSize_def)
qed

text \<open>
  C1. The specification states that after a failed receive the pipeline stays exhausted, so that
  the next call issues a new receive. On the connection \<open>newConn\<close> makes, with a receive
  call that fails, the first \<open>ReadPacket\<close> returns the error, after one receive call, and
  leaves \<open>readPos = 0\<close> and \<open>len(messages) = 1\<close>. The second \<open>ReadPacket\<close> then makes no
  receive call (their count is still 1): it returns the message in slot 0 of the failed
  batch as a packet, with a nil error.
\<close>

theorem failed_receive_leaves_stale_batch:
  "(case ReadPacket fresh_conn (start_world (\<lambda>k. failed_receive)) of
      (r, c, w) \<Rightarrow>
        r = Return (zero_receivedPacket, Some (SyscallError 10054)) \<and>
        rb_calls w = 1 \<and> unat (readPos c) = 0 \<and> s_len (messages c) = 1 \<and>
        (case ReadPacket c w of
           (r2, c2, w2) \<Rightarrow>
             rb_calls w2 = 1 \<and> unat (readPos c2) = 1 \<and>
             (case r2 of Return (pk, e) \<Rightarrow> e = None \<and> buffer pk = Some 0 | Panic a \<Rightarrow> False)))"
  by code_simp

subsection \<open>The header of a short buffer\<close>

text \<open>
  C3. The specification states that \<open>ParseOneSocketControlMessage\<close> never reads a byte outside the
  buffer. The length field is loaded through the unsafe pointer before any check of the
  length of the buffer, so on a buffer of two bytes the load covers two bytes that are
  not the buffer's: with an array of just those two bytes the load leaves the array,
  and with a longer array the answer (\<open>EINVAL\<close> here) is computed from cells beyond the
  length of the slice. The two buffers below hold the same two bytes.
\<close>

theorem ParseOne_short_buffer:
  "ParseOneSocketControlMessage \<lparr>s_arr = [12, 0], s_len = 2\<rparr> = Panic UnsafeLoadBeyondArray \<and>
   ParseOneSocketControlMessage \<lparr>s_arr = [12, 0, 0, 0], s_len = 2\<rparr> = Return (Inl EINVAL) \<and>
   elems \<lparr>s_arr = [12 :: byte, 0, 0, 0], s_len = 2\<rparr> = elems \<lparr>s_arr = [12, 0], s_len = 2\<rparr>"
  by code_simp

subsection \<open>The interface index of an IPv4 packet-info record\<close>

text \<open>
  \<open>parseIPv4PktInfo\<close> decodes the interface index from the same four bytes as the
  address: \<open>binary.LittleEndian.Uint32(body)\<close> reads \<open>body[0:4]\<close>, while the struct in
  its comment has the index after the address, and the IPv6 branch reads \<open>body[16:]\<close>.
\<close>

lemma parseIPv4PktInfo_index:
  assumes "s_len body = 8"
  shows "parseIPv4PktInfo body =
           (AddrFrom4 (take 4 (elems body)), uint32_of_bytes (take 4 (elems body)), True)"
proof -
  have "uint32_of_bytes (take 4 (elems body)) = uint32_of_bytes (elems body)"
    by (simp add: uint32_of_bytes_def)
  with assms show ?thesis by (simp add: parseIPv4PktInfo_def)
qed

text \<open>
  C4. The specification states that the interface index of the packet is decoded from bytes 4 to 7
  of the payload. For a datagram received with the packet-info record of destination
  192.168.1.1 and interface index 5, \<open>ReadPacket\<close> returns the packet with that address
  and with the interface index 16885952, the little-endian value of the four address
  bytes, not 5, the value of bytes 4 to 7.
\<close>

theorem IPv4_pktinfo_ifIndex:
  "(case fst (ReadPacket fresh_conn (start_world (\<lambda>k. one_datagram IPv4_pktinfo))) of
      Return (pk, e) \<Rightarrow>
        e = None \<and> addr (info pk) = Addr4 [192, 168, 1, 1] \<and> ifIndex (info pk) = 16885952
    | Panic a \<Rightarrow> False) \<and>
   uint32_of_bytes [192, 168, 1, 1] = 16885952 \<and> uint32_of_bytes [5, 0, 0, 0] = 5"
  by code_simp

subsection \<open>A malformed chain behind an ECN record without payload\<close>

text \<open>
  C7. The specification states that a call whose message holds a malformed chain returns
  the invalid-control-message error. The chain below is malformed: its first record
  parses, and the parse of what remains gives \<open>EINVAL\<close>. But the first record is an
  \<open>IP_TOS\<close> record without payload, and the code reads \<open>body[0]\<close> of it without a check
  of the length, as the packet-info branch beside it makes: on the connection \<open>newConn\<close>
  makes, \<open>ReadPacket\<close> for a datagram with this ancillary data panics with an index out of
  range, after one receive call and with the cursor moved on, and returns no error.
\<close>

theorem malformed_chain_behind_empty_ECN_panics:
  "ParseOneSocketControlMessage \<lparr>s_arr = empty_TOS_then_short, s_len = 16\<rparr> =
     Return (Inr (\<lparr>Len = 12, Level = IPPROTO_IP, Type = IP_TOS\<rparr>,
                  \<lparr>s_arr = [5, 0, 0, 0], s_len = 0\<rparr>, \<lparr>s_arr = [5, 0, 0, 0], s_len = 4\<rparr>)) \<and>
   ParseOneSocketControlMessage \<lparr>s_arr = [5, 0, 0, 0], s_len = 4\<rparr> = Return (Inl EINVAL) \<and>
   (case ReadPacket fresh_conn (start_world (\<lambda>k. one_datagram empty_TOS_then_short)) of
      (r, c, w) \<Rightarrow> r = Panic IndexOutOfRange \<and> unat (readPos c) = 1 \<and> rb_calls w = 1)"
  by code_simp

section \<open>WritePacket\<close>

lemma WritePacket_GSO_panic:
  "0 < gsoSize \<Longrightarrow> \<not> GSO (capabilities c) \<Longrightarrow>
     WritePacket c w b a oob gsoSize e = (Panic (Explicit ''GSO disabled''), w)"
  by (simp add: WritePacket_def)

lemma WritePacket_ECN_panic:
  assumes "e \<noteq> ECNUnsupported" and "\<not> ECN (capabilities c)"
  shows "WritePacket c w b a oob gsoSize e =
     (if 0 < gsoSize \<and> \<not> GSO (capabilities c) then (Panic (Explicit ''GSO disabled''), w)
      else (Panic (Explicit ''tried to send an ECN-marked packet although ECN is disabled''), w))"
  using assms by (simp add: WritePacket_def Let_def)

text \<open>
  C5. A call of \<open>WritePacket\<close> with \<open>gsoSize > 0\<close> on a connection whose capabilities have
  no GSO, and a call with an ECN value other than \<open>ECNUnsupported\<close> on a connection whose
  capabilities have no ECN, panics, with the message of the first check that fails, and
  leaves the world as it was: no send call has been made.
\<close>

theorem capability_gating:
  assumes "(0 < gsoSize \<and> \<not> GSO (capabilities c)) \<or> (e \<noteq> ECNUnsupported \<and> \<not> ECN (capabilities c))"
  shows "snd (WritePacket c w b a oob gsoSize e) = w \<and>
         fst (WritePacket c w b a oob gsoSize e) =
           (if 0 < gsoSize \<and> \<not> GSO (capabilities c) then Panic (Explicit ''GSO disabled'')
            else Panic (Explicit ''tried to send an ECN-marked packet although ECN is disabled''))"
  using assms WritePacket_GSO_panic [of gsoSize c w b a oob e]
    WritePacket_ECN_panic [of e c w b a oob gsoSize]
  by auto

theorem capability_gating_witness:
  "0 < (1200 :: uint16) \<and> \<not> GSO (capabilities fresh_conn) \<and>
   WritePacket fresh_conn (start_world (\<lambda>k. failed_receive)) (make_bytes 3) peer nil_slice 1200 ECNUnsupported =
     (Panic (Explicit ''GSO disabled''), start_world (\<lambda>k. failed_receive)) \<and>
   ECT0 \<noteq> ECNUnsupported \<and> \<not> ECN (capabilities ECN_off_conn) \<and>
   WritePacket ECN_off_conn (start_world (\<lambda>k. failed_receive)) (make_bytes 3) peer nil_slice 0 ECT0 =
     (Panic (Explicit ''tried to send an ECN-marked packet although ECN is disabled''),
      start_world (\<lambda>k. failed_receive)) \<and>
   sent (start_world (\<lambda>k. failed_receive)) = []"
proof -
  let ?W = "start_world (\<lambda>k. failed_receive)"
  have g: "0 < (1200 :: uint16)" "\<not> GSO (capabilities fresh_conn)"
    by (simp_all add: capabilities_def fresh_conn_def)
  have e: "ECT0 \<noteq> ECNUnsupported" "\<not> ECN (capabilities ECN_off_conn)" "GSO (capabilities ECN_off_conn)"
    by (simp_all add: capabilities_def ECN_off_conn_def)
  have s: "sent ?W = []" by (simp add: start_world_def)
  from capability_gating [of 1200 fresh_conn ECNUnsupported ?W "make_bytes 3" peer nil_slice]
    capability_gating [of 0 ECN_off_conn ECT0 ?W "make_bytes 3" peer nil_slice]
    g e s
  show ?thesis by (simp add: prod_eq_iff)
qed

text \<open>
  C10, as the specification states it, fails: a call with a destination that is not a
  \<open>*net.UDPAddr\<close> does not always panic through the type assertion. With \<open>gsoSize > 0\<close> on
  a connection without GSO it panics earlier, with \<open>GSO disabled\<close>.
\<close>

theorem non_UDP_address_GSO_panic:
  "\<not> is_UDPAddr (OtherAddr ''tcp'') \<and>
   fst (WritePacket fresh_conn (start_world (\<lambda>k. failed_receive)) (make_bytes 3) (OtherAddr ''tcp'')
          nil_slice 1200 ECNUnsupported) = Panic (Explicit ''GSO disabled'') \<and>
   fst (WritePacket fresh_conn (start_world (\<lambda>k. failed_receive)) (make_bytes 3) (OtherAddr ''tcp'')
          nil_slice 1200 ECNUnsupported) \<noteq> Panic TypeAssertionFailed"
  by (simp add: WritePacket_GSO_panic capabilities_def fresh_conn_def)

text \<open>
  C10, amended. A call of \<open>WritePacket\<close> whose destination is not a \<open>*net.UDPAddr\<close> never
  returns, neither a count nor an error, and makes no send call (the world is as
  before): it panics with the message of the GSO check when \<open>gsoSize > 0\<close> and the
  connection has no GSO, else with that of the ECN check when the ECN value is not
  \<open>ECNUnsupported\<close> and the connection has no ECN, and else through the unchecked type
  assertion. So \<open>WritePacket\<close> only ever sends to UDP addresses.
\<close>

theorem non_UDP_address_panics:
  assumes "\<not> is_UDPAddr a"
  shows "snd (WritePacket c w b a oob gsoSize e) = w \<and>
         fst (WritePacket c w b a oob gsoSize e) =
           (if 0 < gsoSize \<and> \<not> GSO (capabilities c) then Panic (Explicit ''GSO disabled'')
            else if e \<noteq> ECNUnsupported \<and> \<not> ECN (capabilities c)
            then Panic (Explicit ''tried to send an ECN-marked packet although ECN is disabled'')
            else Panic TypeAssertionFailed)"
proof (cases a)
  case NoAddr
  then show ?thesis by (simp add: WritePacket_def WritePacket_ecn_def Let_def)
next
  case (UDPAddrPtr u)
  with assms show ?thesis by simp
next
  case (OtherAddr n)
  then show ?thesis by (simp add: WritePacket_def WritePacket_ecn_def Let_def)
qed

theorem non_UDP_address_panics_witness:
  "\<not> is_UDPAddr NoAddr \<and>
   WritePacket ECN_off_conn (start_world (\<lambda>k. failed_receive)) (make_bytes 3) NoAddr nil_slice 1200
       ECNUnsupported = (Panic TypeAssertionFailed, start_world (\<lambda>k. failed_receive))"
proof -
  have c: "GSO (capabilities ECN_off_conn)" by (simp add: capabilities_def ECN_off_conn_def)
  from non_UDP_address_panics [of NoAddr ECN_off_conn "start_world (\<lambda>k. failed_receive)"
      "make_bytes 3" nil_slice 1200 ECNUnsupported] c
  show ?thesis by (simp add: prod_eq_iff)
qed

end
